theory Spec2Isabelle
  imports Complex_Main "HOL-Library.Word" "HOL-Library.Sublist" "HOL-Library.Multiset"
begin

unbundle bit_operations_syntax

section \<open>JavaScript strings and arrays\<close>

text \<open>
  A JavaScript string is modelled as a \<open>string\<close> (a list of \<open>char\<close>); one \<open>char\<close> stands for
  one UTF-16 code unit below 256, so \<open>length\<close> is the \<open>.length\<close> of the source and
  \<open>of_char\<close> is \<open>charCodeAt\<close>.  Array and string indices that the source computes by
  subtraction are \<open>int\<close>, because they do become negative.
\<close>

text \<open>The characters matched by \<open>\s\<close> among the code units below 256 (tab, line feed,
  vertical tab, form feed, carriage return, space, no-break space).\<close>

definition is_space :: "char \<Rightarrow> bool" where
  "is_space c \<longleftrightarrow> c \<in> set [CHR 0x09, CHR 0x0A, CHR 0x0B, CHR 0x0C, CHR 0x0D, CHR 0x20, CHR 0xA0]"

text \<open>\<open>String.prototype.trim\<close>.\<close>

definition trim :: "string \<Rightarrow> string" where
  "trim s = rev (dropWhile is_space (rev (dropWhile is_space s)))"

text \<open>The relative-index rule shared by \<open>Array.prototype.slice\<close> and
  \<open>String.prototype.slice\<close>: a negative index counts from the end, and both ends are clamped.\<close>

definition slice_index :: "nat \<Rightarrow> int \<Rightarrow> nat" where
  "slice_index len i = (if i < 0 then nat (max (int len + i) 0) else min (nat i) len)"

definition js_slice :: "int \<Rightarrow> int \<Rightarrow> 'a list \<Rightarrow> 'a list" where
  "js_slice start fin xs =
     (let from = slice_index (length xs) start; to = slice_index (length xs) fin
      in take (to - from) (drop from xs))"

text \<open>\<open>xs.slice(start)\<close>, with no end.\<close>

definition js_slice_from :: "int \<Rightarrow> 'a list \<Rightarrow> 'a list" where
  "js_slice_from start xs = drop (slice_index (length xs) start) xs"

text \<open>\<open>s.lastIndexOf(pat, pos)\<close>: the largest index \<open>k \<le> min (max pos 0) (|s| - |pat|)\<close> at which
  \<open>pat\<close> occurs in \<open>s\<close>, or \<open>-1\<close>.\<close>

definition lastIndexOf :: "string \<Rightarrow> string \<Rightarrow> int \<Rightarrow> int" where
  "lastIndexOf s pat pos =
     (let n = length s; m = length pat in
      if n < m then - 1
      else (case filter (\<lambda>i. take m (drop i s) = pat) (rev [0 ..< Suc (min (nat (max pos 0)) (n - m))]) of
              [] \<Rightarrow> - 1
            | i # _ \<Rightarrow> int i))"

text \<open>\<open>s.indexOf(pat)\<close> as an option, with the characters of both sides passed through \<open>f\<close>
  first (\<open>id\<close> for an exact search, \<open>ascii_lower\<close> for the \<open>i\<close> flag of a regular expression).\<close>

fun index_of :: "(char \<Rightarrow> char) \<Rightarrow> string \<Rightarrow> string \<Rightarrow> nat option" where
  "index_of f pat [] = (if pat = [] then Some 0 else None)"
| "index_of f pat (c # s) =
     (if prefix (map f pat) (map f (c # s)) then Some 0 else map_option Suc (index_of f pat s))"

definition str_includes :: "string \<Rightarrow> string \<Rightarrow> bool" where
  "str_includes s pat \<longleftrightarrow> index_of id pat s \<noteq> None"

text \<open>Character classes of the regular expressions: \<open>[A-Z]\<close>, \<open>\d\<close> and \<open>\w\<close>.\<close>

definition upper_letters :: string where
  "upper_letters = ''ABCDEFGHIJKLMNOPQRSTUVWXYZ''"

definition lower_letters :: string where
  "lower_letters = ''abcdefghijklmnopqrstuvwxyz''"

definition is_upper :: "char \<Rightarrow> bool" where
  "is_upper c \<longleftrightarrow> c \<in> set upper_letters"

definition is_digit :: "char \<Rightarrow> bool" where
  "is_digit c \<longleftrightarrow> c \<in> set ''0123456789''"

definition is_word :: "char \<Rightarrow> bool" where
  "is_word c \<longleftrightarrow> c \<in> set upper_letters \<or> c \<in> set lower_letters \<or> is_digit c \<or> c = CHR ''_''"

text \<open>Case folding of a regular expression with the \<open>i\<close> flag and an ASCII pattern: only the
  letters A to Z fold onto the pattern's letters.\<close>

definition ascii_lower :: "char \<Rightarrow> char" where
  "ascii_lower c = (case map_of (zip upper_letters lower_letters) c of Some l \<Rightarrow> l | None \<Rightarrow> c)"

text \<open>\<open>String.prototype.toLowerCase\<close> on code units below 256: A to Z, and the accented
  capitals 192 to 222 apart from the multiplication sign 215.\<close>

definition latin1_upper :: string where
  "latin1_upper = [CHR 0xC0, CHR 0xC1, CHR 0xC2, CHR 0xC3, CHR 0xC4, CHR 0xC5, CHR 0xC6, CHR 0xC7, CHR 0xC8, CHR 0xC9, CHR 0xCA, CHR 0xCB, CHR 0xCC, CHR 0xCD, CHR 0xCE, CHR 0xCF, CHR 0xD0, CHR 0xD1, CHR 0xD2, CHR 0xD3, CHR 0xD4, CHR 0xD5, CHR 0xD6, CHR 0xD8, CHR 0xD9, CHR 0xDA, CHR 0xDB, CHR 0xDC, CHR 0xDD, CHR 0xDE]"

definition latin1_lower :: string where
  "latin1_lower = [CHR 0xE0, CHR 0xE1, CHR 0xE2, CHR 0xE3, CHR 0xE4, CHR 0xE5, CHR 0xE6, CHR 0xE7, CHR 0xE8, CHR 0xE9, CHR 0xEA, CHR 0xEB, CHR 0xEC, CHR 0xED, CHR 0xEE, CHR 0xEF, CHR 0xF0, CHR 0xF1, CHR 0xF2, CHR 0xF3, CHR 0xF4, CHR 0xF5, CHR 0xF6, CHR 0xF8, CHR 0xF9, CHR 0xFA, CHR 0xFB, CHR 0xFC, CHR 0xFD, CHR 0xFE]"

definition toLowerCase_char :: "char \<Rightarrow> char" where
  "toLowerCase_char c =
     (case map_of (zip (upper_letters @ latin1_upper) (lower_letters @ latin1_lower)) c of
        Some l \<Rightarrow> l
      | None \<Rightarrow> c)"

definition toLowerCase :: "string \<Rightarrow> string" where
  "toLowerCase s = map toLowerCase_char s"

text \<open>\<open>s.replace(pat, rep)\<close> with a string pattern: the first occurrence only, and the
  replacement text expands \<open>$$\<close>, \<open>$&\<close>, \<open>$`\<close> and \<open>$'\<close> (a string pattern has no
  capture groups, so \<open>$1\<close> stays as it is).\<close>

fun expand_replacement :: "string \<Rightarrow> string \<Rightarrow> string \<Rightarrow> string \<Rightarrow> string" where
  "expand_replacement matched pre post (c # d # r) =
     (if c = CHR ''$'' \<and> d = CHR ''$'' then CHR ''$'' # expand_replacement matched pre post r
      else if c = CHR ''$'' \<and> d = CHR ''&'' then matched @ expand_replacement matched pre post r
      else if c = CHR ''$'' \<and> d = CHR 0x60 then pre @ expand_replacement matched pre post r
      else if c = CHR ''$'' \<and> d = CHR 0x27 then post @ expand_replacement matched pre post r
      else c # expand_replacement matched pre post (d # r))"
| "expand_replacement matched pre post r = r"

definition js_replace :: "string \<Rightarrow> string \<Rightarrow> string \<Rightarrow> string" where
  "js_replace pat rep s =
     (case index_of id pat s of
        None \<Rightarrow> s
      | Some i \<Rightarrow>
          (let pre = take i s; post = drop (i + length pat) s
           in pre @ expand_replacement pat pre post rep @ post))"

text \<open>\<open>s.replace(/re/g, rep)\<close> for a regular expression that matches no empty string and a
  replacement without \<open>$\<close>.  The matcher \<open>m\<close> gives the length of the match of the expression
  that starts at the head of its argument, if there is one; the scan is leftmost-first and goes
  on behind each match, as the \<open>g\<close> flag does.\<close>

fun replace_matches :: "(string \<Rightarrow> nat option) \<Rightarrow> string \<Rightarrow> string \<Rightarrow> string" where
  "replace_matches m rep [] = []"
| "replace_matches m rep (c # s) =
     (case m (c # s) of
        Some (Suc n) \<Rightarrow> rep @ replace_matches m rep (drop n s)
      | _ \<Rightarrow> c # replace_matches m rep s)"

text \<open>\<open>s.split(/re/)\<close> under the same convention; \<open>cur\<close> is the piece being read.\<close>

fun split_matches :: "(string \<Rightarrow> nat option) \<Rightarrow> string \<Rightarrow> string \<Rightarrow> string list" where
  "split_matches m cur [] = [cur]"
| "split_matches m cur (c # s) =
     (case m (c # s) of
        Some (Suc n) \<Rightarrow> cur # split_matches m [] (drop n s)
      | _ \<Rightarrow> split_matches m (cur @ [c]) s)"

definition js_split :: "(string \<Rightarrow> nat option) \<Rightarrow> string \<Rightarrow> string list" where
  "js_split m s = split_matches m [] s"

text \<open>\<open>re.test(s)\<close> and the first match: the matcher sees the character before the position
  as well, which is what \<open>\b\<close> needs.\<close>

fun first_match :: "(char option \<Rightarrow> string \<Rightarrow> 'a option) \<Rightarrow> char option \<Rightarrow> string \<Rightarrow> 'a option" where
  "first_match m prev [] = m prev []"
| "first_match m prev (c # s) =
     (case m prev (c # s) of Some r \<Rightarrow> Some r | None \<Rightarrow> first_match m (Some c) s)"

definition regex_test :: "(char option \<Rightarrow> string \<Rightarrow> 'a option) \<Rightarrow> string \<Rightarrow> bool" where
  "regex_test m s \<longleftrightarrow> first_match m None s \<noteq> None"

text \<open>The matchers of \<open>/\s+/\<close> and \<open>/\n\n+/\<close>.\<close>

definition match_spaces :: "string \<Rightarrow> nat option" where
  "match_spaces s = (case length (takeWhile is_space s) of 0 \<Rightarrow> None | Suc n \<Rightarrow> Some (Suc n))"

definition match_blank_lines :: "string \<Rightarrow> nat option" where
  "match_blank_lines s =
     (let n = length (takeWhile (\<lambda>c. c = CHR 0x0A) s) in if 2 \<le> n then Some n else None)"

text \<open>\<open>xs.join(sep)\<close>.\<close>

fun join :: "string \<Rightarrow> string list \<Rightarrow> string" where
  "join sep [] = []"
| "join sep [x] = x"
| "join sep (x # y # ys) = x @ sep @ join sep (y # ys)"

text \<open>\<open>[...new Set(xs)]\<close>: the first occurrence of each element, in the order of insertion
  (\<open>remdups\<close> keeps the last one, hence the two reversals).\<close>

definition dedupe :: "'a list \<Rightarrow> 'a list" where
  "dedupe xs = rev (remdups (rev xs))"

text \<open>Errors thrown by the source, as values.\<close>

datatype js_error = TypeError string | Error string

text \<open>Reading a property of an object literal by a key that comes from the request: an own
  property, a property inherited from \<open>Object.prototype\<close> (a function or an object, truthy and not
  iterable), or \<open>undefined\<close>.\<close>

datatype 'a js_lookup = Own 'a | Inherited | Undefined

definition object_prototype_keys :: "string list" where
  "object_prototype_keys =
     [''constructor'', ''__defineGetter__'', ''__defineSetter__'', ''hasOwnProperty'',
      ''__lookupGetter__'', ''__lookupSetter__'', ''isPrototypeOf'', ''propertyIsEnumerable'',
      ''toString'', ''valueOf'', ''__proto__'', ''toLocaleString'']"

definition lookup_property :: "(string \<times> 'a) list \<Rightarrow> string \<Rightarrow> 'a js_lookup" where
  "lookup_property table key =
     (case map_of table key of
        Some v \<Rightarrow> Own v
      | None \<Rightarrow> if key \<in> set object_prototype_keys then Inherited else Undefined)"

section \<open>RAG service (\<open>lib/rag-service.ts\<close>)\<close>

datatype meta_value = MStr string | MNum int | MBool bool

record Document =
  rd_id :: string
  rd_content :: string
  rd_metadata :: "(string \<rightharpoonup> meta_value) option"

record ChunkedDocument =
  rc_id :: string
  rc_documentId :: string
  rc_content :: string
  rc_embedding :: "real list option"
  rc_metadata :: "string \<rightharpoonup> meta_value"

record RAGConfig =
  cfg_chunkSize :: int
  cfg_chunkOverlap :: int
  cfg_embeddingModel :: string
  cfg_embeddingDimensions :: int
  cfg_topK :: int
  cfg_minScore :: real

definition DEFAULT_CONFIG :: RAGConfig where
  "DEFAULT_CONFIG = \<lparr> cfg_chunkSize = 1000, cfg_chunkOverlap = 200, cfg_embeddingModel = ''text-embedding-004'',
     cfg_embeddingDimensions = 768, cfg_topK = 5, cfg_minScore = 0.5 \<rparr>"

subsection \<open>Decimal rendering of numbers in template strings\<close>

definition digit_char :: "nat \<Rightarrow> char" where
  "digit_char d = ''0123456789abcdefghijklmnopqrstuvwxyz'' ! d"

fun to_radix :: "nat \<Rightarrow> nat \<Rightarrow> string" where
  "to_radix b n = (if b < 2 \<or> n < b then [digit_char n] else to_radix b (n div b) @ [digit_char (n mod b)])"

declare to_radix.simps [simp del]

definition show_int :: "int \<Rightarrow> string" where
  "show_int i = (if i < 0 then CHR ''-'' # to_radix 10 (nat (- i)) else to_radix 10 (nat i))"

subsection \<open>\<open>RAGService.chunkDocument\<close>\<close>

text \<open>The end of the chunk that starts at \<open>start\<close>: the body of the loop up to the \<open>push\<close>.
  The source compares with \<open>start + chunkSize / 2\<close>, a floating-point half; both sides are
  doubled here so that the comparison stays on integers.\<close>

definition chunk_end :: "RAGConfig \<Rightarrow> string \<Rightarrow> int \<Rightarrow> int" where
  "chunk_end cfg content start =
     (let len = int (length content);
          e = min (start + cfg_chunkSize cfg) len
      in if e < len then
           (let sentenceEnd = lastIndexOf content ''.'' e in
            if 2 * sentenceEnd > 2 * start + cfg_chunkSize cfg then sentenceEnd + 1
            else (let paragraphEnd = lastIndexOf content [CHR 0x0A, CHR 0x0A] e in
                  if 2 * paragraphEnd > 2 * start + cfg_chunkSize cfg then paragraphEnd + 2 else e))
         else e)"

definition make_chunk :: "Document \<Rightarrow> int \<Rightarrow> int \<Rightarrow> int \<Rightarrow> ChunkedDocument" where
  "make_chunk document chunkIndex start fin =
     \<lparr> rc_id = rd_id document @ ''_chunk_'' @ show_int chunkIndex,
       rc_documentId = rd_id document,
       rc_content = trim (js_slice start fin (rd_content document)),
       rc_embedding = None,
       rc_metadata = (case rd_metadata document of None \<Rightarrow> Map.empty | Some m \<Rightarrow> m)
         (''chunkIndex'' \<mapsto> MNum chunkIndex, ''startChar'' \<mapsto> MNum start, ''endChar'' \<mapsto> MNum fin) \<rparr>"

text \<open>The \<open>while (start < content.length)\<close> loop.  It is a partial function: \<open>None\<close> is the
  loop that never leaves.\<close>

partial_function (option) chunk_loop ::
  "RAGConfig \<Rightarrow> Document \<Rightarrow> int \<Rightarrow> int \<Rightarrow> ChunkedDocument list \<Rightarrow> ChunkedDocument list option" where
  "chunk_loop cfg document start chunkIndex chunks =
     (if start < int (length (rd_content document)) then
        chunk_loop cfg document
          (chunk_end cfg (rd_content document) start - cfg_chunkOverlap cfg)
          (chunkIndex + 1)
          (chunks @ [make_chunk document chunkIndex start (chunk_end cfg (rd_content document) start)])
      else Some chunks)"

definition RAG_chunkDocument :: "RAGConfig \<Rightarrow> Document \<Rightarrow> ChunkedDocument list option" where
  "RAG_chunkDocument cfg document = chunk_loop cfg document 0 0 []"

section \<open>Document crawler service: data model and configuration\<close>

record CrawlTarget =
  ct_url :: string
  ct_title :: string
  ct_snippet :: string
  ct_source :: string
  ct_relevanceScore :: real

datatype ContentType = Article | Manual | Forum | VideoTranscript | PartsCatalog

record DocMetadata =
  md_source :: string
  md_wordCount :: nat
  md_hasImages :: bool
  md_hasPartNumbers :: bool
  md_hasTorqueSpecs :: bool

record CrawledDocument =
  cd_url :: string
  cd_title :: string
  cd_content :: string
  cd_contentType :: ContentType
  cd_extractedAt :: string
  cd_metadata :: DocMetadata

record ChunkMetadata =
  cm_title :: string
  cm_source :: string
  cm_section :: "string option"

record DocumentChunk =
  dc_id :: string
  dc_documentUrl :: string
  dc_content :: string
  dc_chunkIndex :: nat
  dc_embedding :: "real list option"
  dc_metadata :: ChunkMetadata

record IngestionResult =
  ir_success :: bool
  ir_documentsFound :: nat
  ir_documentsCrawled :: nat
  ir_chunksCreated :: nat
  ir_storeId :: "string option"
  ir_errors :: "string list"
  ir_processingTime :: int

record EquipmentQuery =
  eq_type :: string
  eq_make :: "string option"
  eq_model :: "string option"
  eq_year :: "string option"
  eq_symptom :: "string option"
  eq_diagnosis :: "string option"

record TrustedSource =
  ts_domain :: string
  ts_weight :: real
  ts_type :: ContentType

definition TRUSTED_SOURCES_general :: "TrustedSource list" where
  "TRUSTED_SOURCES_general =
     [\<lparr> ts_domain = ''ifixit.com'', ts_weight = 0.95, ts_type = Manual \<rparr>,
      \<lparr> ts_domain = ''familyhandyman.com'', ts_weight = 0.85, ts_type = Article \<rparr>,
      \<lparr> ts_domain = ''thisoldhouse.com'', ts_weight = 0.8, ts_type = Article \<rparr>,
      \<lparr> ts_domain = ''homedepot.com'', ts_weight = 0.7, ts_type = Article \<rparr>,
      \<lparr> ts_domain = ''lowes.com'', ts_weight = 0.7, ts_type = Article \<rparr>]"

definition TRUSTED_SOURCES :: "(string \<times> TrustedSource list) list" where
  "TRUSTED_SOURCES =
     [(''vehicles'',
       [\<lparr> ts_domain = ''repairpal.com'', ts_weight = 0.9, ts_type = Article \<rparr>,
        \<lparr> ts_domain = ''yourmechanic.com'', ts_weight = 0.85, ts_type = Article \<rparr>,
        \<lparr> ts_domain = ''carcomplaints.com'', ts_weight = 0.8, ts_type = Forum \<rparr>,
        \<lparr> ts_domain = ''autoblog.com'', ts_weight = 0.75, ts_type = Article \<rparr>,
        \<lparr> ts_domain = ''nhtsa.gov'', ts_weight = 0.95, ts_type = Manual \<rparr>,
        \<lparr> ts_domain = ''2carpros.com'', ts_weight = 0.7, ts_type = Forum \<rparr>,
        \<lparr> ts_domain = ''justanswer.com'', ts_weight = 0.6, ts_type = Forum \<rparr>,
        \<lparr> ts_domain = ''fixya.com'', ts_weight = 0.6, ts_type = Forum \<rparr>]),
      (''appliances'',
       [\<lparr> ts_domain = ''repairclinic.com'', ts_weight = 0.95, ts_type = Manual \<rparr>,
        \<lparr> ts_domain = ''partselect.com'', ts_weight = 0.9, ts_type = Manual \<rparr>,
        \<lparr> ts_domain = ''applianceassistant.com'', ts_weight = 0.85, ts_type = Article \<rparr>,
        \<lparr> ts_domain = ''fixya.com'', ts_weight = 0.7, ts_type = Forum \<rparr>,
        \<lparr> ts_domain = ''appliancepartspros.com'', ts_weight = 0.85, ts_type = PartsCatalog \<rparr>]),
      (''hvac'',
       [\<lparr> ts_domain = ''hvac-talk.com'', ts_weight = 0.8, ts_type = Forum \<rparr>,
        \<lparr> ts_domain = ''achrn.com'', ts_weight = 0.85, ts_type = Article \<rparr>,
        \<lparr> ts_domain = ''grainger.com'', ts_weight = 0.75, ts_type = PartsCatalog \<rparr>,
        \<lparr> ts_domain = ''supplyhouse.com'', ts_weight = 0.8, ts_type = PartsCatalog \<rparr>]),
      (''general'', TRUSTED_SOURCES_general)]"

definition SEARCH_TEMPLATES_general :: "string list" where
  "SEARCH_TEMPLATES_general =
     [''{type} {symptom} repair guide'',
      ''how to fix {type} {diagnosis}'',
      ''{make} {model} troubleshooting'',
      ''DIY {type} repair {symptom}'']"

definition SEARCH_TEMPLATES :: "(string \<times> string list) list" where
  "SEARCH_TEMPLATES =
     [(''vehicles'',
       [''{year} {make} {model} {symptom} repair guide'',
        ''{make} {model} {diagnosis} how to fix'',
        ''{year} {make} {model} service manual {diagnosis}'',
        ''{make} {model} TSB {symptom}'',
        ''{make} {model} common problems {symptom}'']),
      (''appliances'',
       [''{make} {model} {symptom} repair'',
        ''{make} {model} troubleshooting guide'',
        ''{make} {model} service manual PDF'',
        ''{make} {model} error codes {symptom}'',
        ''how to fix {make} {model} {diagnosis}'']),
      (''hvac'',
       [''{make} {model} {symptom} troubleshooting'',
        ''{type} {symptom} repair guide'',
        ''{make} furnace error codes'',
        ''HVAC {diagnosis} fix DIY'']),
      (''general'', SEARCH_TEMPLATES_general)]"

section \<open>Query synthesizer: \<open>generateSearchQueries\<close>\<close>

text \<open>\<open>x || ''\<close> for an optional string field.\<close>

definition or_empty :: "string option \<Rightarrow> string" where
  "or_empty x = (case x of None \<Rightarrow> [] | Some v \<Rightarrow> v)"

text \<open>The body of the loop over the templates: six \<open>replace\<close> calls with string patterns (each
  replaces the first occurrence), the collapse of white space and the \<open>trim\<close>.\<close>

definition fill_template :: "EquipmentQuery \<Rightarrow> string \<Rightarrow> string" where
  "fill_template query template =
     trim (replace_matches match_spaces '' ''
       (js_replace ''{diagnosis}'' (or_empty (eq_diagnosis query))
       (js_replace ''{symptom}'' (or_empty (eq_symptom query))
       (js_replace ''{year}'' (or_empty (eq_year query))
       (js_replace ''{model}'' (or_empty (eq_model query))
       (js_replace ''{make}'' (or_empty (eq_make query))
       (js_replace ''{type}'' (eq_type query) template)))))))"

definition queries_from :: "EquipmentQuery \<Rightarrow> string list \<Rightarrow> string list" where
  "queries_from query templates =
     dedupe (filter (\<lambda>q. 10 < length q) (map (fill_template query) templates))"

text \<open>\<open>SEARCH_TEMPLATES[query.type] || SEARCH_TEMPLATES.general\<close>, then the loop.  A key
  inherited from \<open>Object.prototype\<close> yields a truthy value that \<open>for ... of\<close> cannot iterate.\<close>

definition generateSearchQueries :: "EquipmentQuery \<Rightarrow> js_error + string list" where
  "generateSearchQueries query =
     (case lookup_property SEARCH_TEMPLATES (eq_type query) of
        Own templates \<Rightarrow> Inr (queries_from query templates)
      | Inherited \<Rightarrow> Inl (TypeError ''templates is not iterable'')
      | Undefined \<Rightarrow> Inr (queries_from query SEARCH_TEMPLATES_general))"

section \<open>Fetcher and extractor\<close>

subsection \<open>\<open>extractTextFromHtml\<close>\<close>

text \<open>The matcher of \<open>/<name[^>]*>[\s\S]*?<\/name>/gi\<close>: the opening \<open><name\<close>, everything up to
  the first \<open>>\<close>, then lazily up to the first closing tag.\<close>

definition match_element :: "string \<Rightarrow> string \<Rightarrow> nat option" where
  "match_element name s =
     (let opn = CHR ''<'' # name; cls = ''</'' @ name @ ''>'' in
      if prefix (map ascii_lower opn) (map ascii_lower s) then
        (case index_of id ''>'' (drop (length opn) s) of
           None \<Rightarrow> None
         | Some i \<Rightarrow>
             (case index_of ascii_lower cls (drop (length opn + i + 1) s) of
                None \<Rightarrow> None
              | Some j \<Rightarrow> Some (length opn + i + 1 + j + length cls)))
      else None)"

text \<open>The matcher of \<open>/<!--[\s\S]*?-->/g\<close>.\<close>

definition match_comment :: "string \<Rightarrow> nat option" where
  "match_comment s =
     (if prefix ''<!--'' s then
        (case index_of id ''-->'' (drop 4 s) of None \<Rightarrow> None | Some j \<Rightarrow> Some (4 + j + 3))
      else None)"

text \<open>The matcher of \<open>/<[^>]+>/g\<close>: at least one character between the brackets.\<close>

definition match_tag :: "string \<Rightarrow> nat option" where
  "match_tag s =
     (case s of
        [] \<Rightarrow> None
      | c # r \<Rightarrow>
          if c = CHR ''<'' then
            (case index_of id ''>'' r of Some (Suc i) \<Rightarrow> Some (Suc i + 2) | _ \<Rightarrow> None)
          else None)"

text \<open>The matcher of a literal such as \<open>/&amp;/g\<close>.\<close>

definition match_literal :: "string \<Rightarrow> string \<Rightarrow> nat option" where
  "match_literal pat s = (if prefix pat s then Some (length pat) else None)"

definition extractTextFromHtml :: "string \<Rightarrow> string" where
  "extractTextFromHtml html =
     (let t1 = replace_matches (match_element ''script'') [] html;
          t2 = replace_matches (match_element ''style'') [] t1;
          t3 = replace_matches (match_element ''nav'') [] t2;
          t4 = replace_matches (match_element ''footer'') [] t3;
          t5 = replace_matches (match_element ''header'') [] t4;
          t6 = replace_matches (match_element ''aside'') [] t5;
          t7 = replace_matches match_comment [] t6;
          t8 = replace_matches match_tag '' '' t7;
          t9 = replace_matches (match_literal ''&nbsp;'') '' '' t8;
          t10 = replace_matches (match_literal ''&amp;'') ''&'' t9;
          t11 = replace_matches (match_literal ''&lt;'') ''<'' t10;
          t12 = replace_matches (match_literal ''&gt;'') ''>'' t11;
          t13 = replace_matches (match_literal ''&quot;'') [CHR 0x22] t12;
          t14 = replace_matches (match_literal ''&#39;'') [CHR 0x27] t13;
          t15 = replace_matches match_spaces '' '' t14
      in trim t15)"

subsection \<open>The outside world of the crawler\<close>

text \<open>
  The network calls are parameters of the model.  \<open>w_searchForUrls\<close> is the grounded search
  of \<open>searchForUrls\<close> together with its reading of the reply (the method catches every error and
  returns a list); \<open>w_fetch\<close> is the HTTP GET of a page; \<open>w_distill\<close> is the language-model
  call of \<open>cleanContentWithGemini\<close>, given the title and the truncated text; the two embedding
  end points take the request bodies the source builds.
\<close>

record HttpResponse =
  resp_ok :: bool
  resp_status :: nat
  resp_contentType :: "string option"
  resp_text :: string

datatype fetch_result = FetchFailed js_error | Fetched HttpResponse

datatype api_reply = ApiFailed js_error | ApiNotOk nat | ApiText "string option"

datatype TaskType = RETRIEVAL_DOCUMENT | RETRIEVAL_QUERY

record EmbedRequest =
  er_model :: string
  er_text :: string
  er_taskType :: TaskType
  er_outputDimensionality :: int

datatype 'a embed_reply = EmbedFailed js_error | EmbedNotOk nat | EmbedMalformed | EmbedOk 'a

record World =
  w_searchForUrls :: "string \<Rightarrow> CrawlTarget list"
  w_fetch :: "string \<Rightarrow> fetch_result"
  w_distill :: "string \<Rightarrow> string \<Rightarrow> api_reply"
  w_batchEmbedContents :: "EmbedRequest list \<Rightarrow> real list option list embed_reply"
  w_embedContent :: "EmbedRequest \<Rightarrow> real list embed_reply"

subsection \<open>\<open>cleanContentWithGemini\<close>, \<open>extractTitle\<close>, \<open>classifyContent\<close>\<close>

definition cleanContentWithGemini :: "World \<Rightarrow> string \<Rightarrow> string \<Rightarrow> string option" where
  "cleanContentWithGemini w rawText title =
     (let truncatedText = js_slice 0 30000 rawText in
      case w_distill w title truncatedText of
        ApiFailed e \<Rightarrow> None
      | ApiNotOk status \<Rightarrow> None
      | ApiText t \<Rightarrow>
          (let content = or_empty t in
           if str_includes content ''NOT_RELEVANT'' then None else Some content))"

text \<open>The matcher of \<open>/<title[^>]*>([^<]+)<\/title>/i\<close>; it yields the captured group.\<close>

definition match_title :: "char option \<Rightarrow> string \<Rightarrow> string option" where
  "match_title prev s =
     (if prefix ''<title'' (map ascii_lower s) then
        (case index_of id ''>'' (drop 6 s) of
           None \<Rightarrow> None
         | Some i \<Rightarrow>
             (let body = drop (6 + i + 1) s; captured = takeWhile (\<lambda>c. c \<noteq> CHR ''<'') body in
              if captured \<noteq> [] \<and> prefix ''</title>'' (map ascii_lower (drop (length captured) body))
              then Some captured else None))
      else None)"

definition extractTitle :: "string \<Rightarrow> string" where
  "extractTitle html = (case first_match match_title None html of Some g \<Rightarrow> trim g | None \<Rightarrow> ''Untitled'')"

definition classifyContent :: "string \<Rightarrow> string \<Rightarrow> ContentType" where
  "classifyContent source content =
     (if str_includes source ''ifixit'' \<or> str_includes source ''repairclinic'' then Manual
      else if str_includes source ''forum'' \<or> str_includes source ''talk'' \<or> str_includes content ''posted by''
        then Forum
      else if str_includes source ''parts'' \<or> str_includes source ''catalog'' then PartsCatalog
      else if str_includes content ''transcript'' \<or> str_includes source ''youtube'' then VideoTranscript
      else Article)"

subsection \<open>The markers of technical content\<close>

text \<open>\<open>\b\<close>: exactly one of the two neighbours is a word character.\<close>

definition word_boundary :: "char option \<Rightarrow> string \<Rightarrow> bool" where
  "word_boundary prev s \<longleftrightarrow>
     (case prev of None \<Rightarrow> False | Some c \<Rightarrow> is_word c) \<noteq> (case s of [] \<Rightarrow> False | c # _ \<Rightarrow> is_word c)"

text \<open>The matcher of \<open>/\b[A-Z]{2,}\d{4,}\b|\b\d{5,}-[A-Z\d]+\b/\<close>.  Each greedy run is followed
  by something the run excludes, so the longest run is the only one that can match.\<close>

definition match_part_number :: "char option \<Rightarrow> string \<Rightarrow> unit option" where
  "match_part_number prev s =
     (let letters = takeWhile is_upper s;
          digits = takeWhile is_digit (drop (length letters) s);
          rest = drop (length letters + length digits) s;
          digits5 = takeWhile is_digit s;
          behind = drop (length digits5) s;
          code = takeWhile (\<lambda>c. is_upper c \<or> is_digit c) (drop 1 behind)
      in if word_boundary prev s \<and> 2 \<le> length letters \<and> 4 \<le> length digits
            \<and> word_boundary (Some (last digits)) rest then Some ()
         else if word_boundary prev s \<and> 5 \<le> length digits5 \<and> prefix ''-'' behind \<and> code \<noteq> []
            \<and> word_boundary (Some (last code)) (drop (1 + length code) behind) then Some ()
         else None)"

text \<open>The matcher of \<open>/\b\d+\s*(ft-lb|nm|lb-ft|newton|torque)\b/i\<close>.\<close>

definition match_torque :: "char option \<Rightarrow> string \<Rightarrow> unit option" where
  "match_torque prev s =
     (let digits = takeWhile is_digit s;
          spaces = takeWhile is_space (drop (length digits) s);
          rest = drop (length digits + length spaces) s
      in if word_boundary prev s \<and> digits \<noteq> []
            \<and> (\<exists>u \<in> set [''ft-lb'', ''nm'', ''lb-ft'', ''newton'', ''torque''].
                  prefix u (map ascii_lower rest) \<and> word_boundary (Some (last u)) (drop (length u) rest))
         then Some () else None)"

text \<open>The matcher of \<open>/<img\s/i\<close>.\<close>

definition match_img :: "char option \<Rightarrow> string \<Rightarrow> unit option" where
  "match_img prev s =
     (if prefix ''<img'' (map ascii_lower s) \<and> (case drop 4 s of [] \<Rightarrow> False | c # _ \<Rightarrow> is_space c)
      then Some () else None)"

subsection \<open>\<open>crawlUrl\<close>\<close>

text \<open>The object literal \<open>doc\<close> of \<open>crawlUrl\<close>; \<open>now\<close> is \<open>new Date().toISOString()\<close>.\<close>

definition make_document :: "CrawlTarget \<Rightarrow> string \<Rightarrow> string \<Rightarrow> string \<Rightarrow> CrawledDocument" where
  "make_document target html content now =
     \<lparr> cd_url = ct_url target,
       cd_title = (if ct_title target \<noteq> [] then ct_title target else extractTitle html),
       cd_content = content,
       cd_contentType = classifyContent (ct_source target) content,
       cd_extractedAt = now,
       cd_metadata =
         \<lparr> md_source = ct_source target,
           md_wordCount = length (js_split match_spaces content),
           md_hasImages = regex_test match_img html,
           md_hasPartNumbers = regex_test match_part_number content,
           md_hasTorqueSpecs = regex_test match_torque content \<rparr> \<rparr>"

text \<open>\<open>crawlUrl\<close> reads and writes the crawl cache; the cache goes in and comes out.  Every
  failure (a thrown fetch, a status that is not ok, a content type that is not text, a page that
  is too short) is the result \<open>null\<close>, here \<open>None\<close>, with the cache as it was.\<close>

definition crawlUrl ::
  "World \<Rightarrow> string \<Rightarrow> (string \<rightharpoonup> CrawledDocument) \<Rightarrow> CrawlTarget
     \<Rightarrow> CrawledDocument option \<times> (string \<rightharpoonup> CrawledDocument)" where
  "crawlUrl w now crawlCache target =
     (case crawlCache (ct_url target) of
        Some cached \<Rightarrow> (Some cached, crawlCache)
      | None \<Rightarrow>
          (case w_fetch w (ct_url target) of
             FetchFailed e \<Rightarrow> (None, crawlCache)
           | Fetched response \<Rightarrow>
               if \<not> resp_ok response then (None, crawlCache)
               else if \<not> str_includes (or_empty (resp_contentType response)) ''text/html''
                     \<and> \<not> str_includes (or_empty (resp_contentType response)) ''text/plain''
                 then (None, crawlCache)
               else if length (resp_text response) < 500 then (None, crawlCache)
               else if length (extractTextFromHtml (resp_text response)) < 200 then (None, crawlCache)
               else
                 (let html = resp_text response;
                      rawText = extractTextFromHtml html;
                      cleanedContent = cleanContentWithGemini w rawText (ct_title target);
                      content = (if or_empty cleanedContent \<noteq> [] then or_empty cleanedContent
                                 else js_slice 0 15000 rawText);
                      doc = make_document target html content now
                  in (Some doc, crawlCache(ct_url target \<mapsto> doc)))))"

section \<open>Chunker\<close>

text \<open>\<open>hashString\<close>: the accumulator is a 32-bit integer (\<open>hash & hash\<close> converts to one after
  each step), the result is \<open>Math.abs(hash).toString(36)\<close>.\<close>

definition hashString :: "string \<Rightarrow> string" where
  "hashString str =
     to_radix 36 (nat \<bar>sint (foldl (\<lambda>hash c. (push_bit 5 hash - hash) + of_nat (of_char c)) (0 :: 32 word) str)\<bar>)"

definition new_chunk :: "CrawledDocument \<Rightarrow> string \<Rightarrow> nat \<Rightarrow> DocumentChunk" where
  "new_chunk doc currentChunk chunkIndex =
     \<lparr> dc_id = hashString (cd_url doc) @ ''-'' @ show_int (int chunkIndex),
       dc_documentUrl = cd_url doc,
       dc_content = trim currentChunk,
       dc_chunkIndex = chunkIndex,
       dc_embedding = None,
       dc_metadata = \<lparr> cm_title = cd_title doc, cm_source = md_source (cd_metadata doc), cm_section = None \<rparr> \<rparr>"

text \<open>The loop over the paragraphs, with \<open>chunkSize = 1000\<close> and \<open>overlap = 200\<close> (so the
  overlap is the last \<open>floor (200 / 5) = 40\<close> words).  The state is \<open>currentChunk\<close>,
  \<open>chunkIndex\<close> and the chunks pushed so far.\<close>

fun chunk_paragraphs ::
  "CrawledDocument \<Rightarrow> string list \<Rightarrow> string \<Rightarrow> nat \<Rightarrow> DocumentChunk list
     \<Rightarrow> string \<times> nat \<times> DocumentChunk list" where
  "chunk_paragraphs doc [] currentChunk chunkIndex chunks = (currentChunk, chunkIndex, chunks)"
| "chunk_paragraphs doc (para # paragraphs) currentChunk chunkIndex chunks =
     (if 1000 < length currentChunk + length para \<and> 0 < length currentChunk then
        chunk_paragraphs doc paragraphs
          (join '' '' (js_slice_from (- 40) (js_split match_spaces currentChunk)) @ [CHR 0x0A, CHR 0x0A] @ para)
          (chunkIndex + 1)
          (chunks @ [new_chunk doc currentChunk chunkIndex])
      else
        chunk_paragraphs doc paragraphs
          (currentChunk @ (if currentChunk \<noteq> [] then [CHR 0x0A, CHR 0x0A] else []) @ para)
          chunkIndex chunks)"

definition chunkDocument :: "CrawledDocument \<Rightarrow> DocumentChunk list" where
  "chunkDocument doc =
     (case chunk_paragraphs doc (js_split match_blank_lines (cd_content doc)) [] 0 [] of
        (currentChunk, chunkIndex, chunks) \<Rightarrow>
          if 50 < length (trim currentChunk) then chunks @ [new_chunk doc currentChunk chunkIndex]
          else chunks)"

section \<open>Numbers\<close>

text \<open>
  The scores are JavaScript numbers, that is IEEE 754 double-precision values.  A finite
  double is modelled by the real number it denotes; \<open>NaN\<close> and the two infinities are values of
  their own.  Every arithmetic operation computes the exact real result and rounds it with
  \<open>fl\<close>: to the nearest double, a tie going to the even significand, and to an infinity from
  \<open>2\<^sup>1\<^sup>0\<^sup>2\<^sup>4 - 2\<^sup>9\<^sup>7\<^sup>0\<close> on (half a unit in the last place above the largest double).  The
  doubles near \<open>x\<close> are the multiples of \<open>2\<^sup>e\<close>, where \<open>e\<close> is 52 below the binary exponent of
  \<open>x\<close> and at least \<open>-1074\<close>, the exponent of the subnormal numbers.  The two zeros are not told
  apart: the functions below never divide a non-zero number by a zero whose sign could matter.
\<close>

datatype js_number = Num real | NaN | PosInfinity | NegInfinity

definition overflow_bound :: real where
  "overflow_bound = 2 ^ 1024 - 2 ^ 970"

definition round_even :: "real \<Rightarrow> int" where
  "round_even y =
     (if y - of_int \<lfloor>y\<rfloor> < 1 / 2 then \<lfloor>y\<rfloor>
      else if 1 / 2 < y - of_int \<lfloor>y\<rfloor> then \<lfloor>y\<rfloor> + 1
      else if even \<lfloor>y\<rfloor> then \<lfloor>y\<rfloor> else \<lfloor>y\<rfloor> + 1)"

definition double_exponent :: "real \<Rightarrow> int" where
  "double_exponent x = max (\<lfloor>log 2 \<bar>x\<bar>\<rfloor> - 52) (- 1074)"

definition round_double :: "real \<Rightarrow> real" where
  "round_double x =
     (if x = 0 then 0
      else of_int (round_even (x / 2 powi double_exponent x)) * 2 powi double_exponent x)"

definition fl :: "real \<Rightarrow> js_number" where
  "fl x =
     (if overflow_bound \<le> x then PosInfinity
      else if x \<le> - overflow_bound then NegInfinity
      else Num (round_double x))"

fun js_add :: "js_number \<Rightarrow> js_number \<Rightarrow> js_number" where
  "js_add (Num x) (Num y) = fl (x + y)"
| "js_add NaN _ = NaN"
| "js_add _ NaN = NaN"
| "js_add PosInfinity NegInfinity = NaN"
| "js_add NegInfinity PosInfinity = NaN"
| "js_add PosInfinity _ = PosInfinity"
| "js_add NegInfinity _ = NegInfinity"
| "js_add (Num x) PosInfinity = PosInfinity"
| "js_add (Num x) NegInfinity = NegInfinity"

fun js_sub :: "js_number \<Rightarrow> js_number \<Rightarrow> js_number" where
  "js_sub (Num x) (Num y) = fl (x - y)"
| "js_sub NaN _ = NaN"
| "js_sub _ NaN = NaN"
| "js_sub PosInfinity PosInfinity = NaN"
| "js_sub NegInfinity NegInfinity = NaN"
| "js_sub PosInfinity _ = PosInfinity"
| "js_sub NegInfinity _ = NegInfinity"
| "js_sub (Num x) PosInfinity = NegInfinity"
| "js_sub (Num x) NegInfinity = PosInfinity"

fun js_mul :: "js_number \<Rightarrow> js_number \<Rightarrow> js_number" where
  "js_mul (Num x) (Num y) = fl (x * y)"
| "js_mul NaN _ = NaN"
| "js_mul _ NaN = NaN"
| "js_mul PosInfinity (Num y) = (if y = 0 then NaN else if 0 < y then PosInfinity else NegInfinity)"
| "js_mul NegInfinity (Num y) = (if y = 0 then NaN else if 0 < y then NegInfinity else PosInfinity)"
| "js_mul (Num x) PosInfinity = (if x = 0 then NaN else if 0 < x then PosInfinity else NegInfinity)"
| "js_mul (Num x) NegInfinity = (if x = 0 then NaN else if 0 < x then NegInfinity else PosInfinity)"
| "js_mul PosInfinity PosInfinity = PosInfinity"
| "js_mul PosInfinity NegInfinity = NegInfinity"
| "js_mul NegInfinity PosInfinity = NegInfinity"
| "js_mul NegInfinity NegInfinity = PosInfinity"

fun js_div :: "js_number \<Rightarrow> js_number \<Rightarrow> js_number" where
  "js_div (Num x) (Num y) =
     (if y = 0 then (if x = 0 then NaN else if 0 < x then PosInfinity else NegInfinity)
      else fl (x / y))"
| "js_div NaN _ = NaN"
| "js_div _ NaN = NaN"
| "js_div (Num x) PosInfinity = Num 0"
| "js_div (Num x) NegInfinity = Num 0"
| "js_div PosInfinity (Num y) = (if 0 \<le> y then PosInfinity else NegInfinity)"
| "js_div NegInfinity (Num y) = (if 0 \<le> y then NegInfinity else PosInfinity)"
| "js_div _ _ = NaN"

text \<open>\<open>Math.sqrt\<close>, correctly rounded.\<close>

fun js_sqrt :: "js_number \<Rightarrow> js_number" where
  "js_sqrt (Num x) = (if x < 0 then NaN else fl (sqrt x))"
| "js_sqrt PosInfinity = PosInfinity"
| "js_sqrt _ = NaN"

text \<open>\<open>x >= m\<close> for a finite \<open>m\<close>; a comparison with \<open>NaN\<close> is false.\<close>

fun js_ge :: "js_number \<Rightarrow> real \<Rightarrow> bool" where
  "js_ge (Num x) m \<longleftrightarrow> m \<le> x"
| "js_ge PosInfinity m \<longleftrightarrow> True"
| "js_ge _ m \<longleftrightarrow> False"

text \<open>\<open>xs.sort(cmp)\<close>.  The sort is stable; \<open>x\<close> goes behind \<open>y\<close> when \<open>cmp(x, y) > 0\<close>,
  and a comparison result \<open>NaN\<close> counts as \<open>0\<close>.  It is written as the insertion sort that
  inserts from the right, which is the result of every stable sort when the comparison is
  consistent.\<close>

fun is_positive :: "js_number \<Rightarrow> bool" where
  "is_positive (Num x) \<longleftrightarrow> 0 < x"
| "is_positive PosInfinity \<longleftrightarrow> True"
| "is_positive _ \<longleftrightarrow> False"

fun js_insort :: "('a \<Rightarrow> 'a \<Rightarrow> js_number) \<Rightarrow> 'a \<Rightarrow> 'a list \<Rightarrow> 'a list" where
  "js_insort cmp x [] = [x]"
| "js_insort cmp x (y # ys) = (if is_positive (cmp x y) then y # js_insort cmp x ys else x # y # ys)"

definition js_sort :: "('a \<Rightarrow> 'a \<Rightarrow> js_number) \<Rightarrow> 'a list \<Rightarrow> 'a list" where
  "js_sort cmp xs = foldr (js_insort cmp) xs []"

text \<open>\<open>xs[j]\<close>, \<open>undefined\<close> out of range.\<close>

definition js_nth :: "'a list \<Rightarrow> nat \<Rightarrow> 'a option" where
  "js_nth xs j = (if j < length xs then Some (xs ! j) else None)"

section \<open>Embeddings and similarity\<close>

subsection \<open>\<open>RAGService.generateEmbeddings\<close> and \<open>RAGService.generateQueryEmbedding\<close>\<close>

definition error_message :: "js_error \<Rightarrow> string" where
  "error_message e = (case e of TypeError m \<Rightarrow> m | Error m \<Rightarrow> m)"

text \<open>The request body of \<open>generateEmbeddings\<close>: one request per text, each with task type
  \<open>RETRIEVAL_DOCUMENT\<close>.\<close>

definition generateEmbeddings_requests :: "RAGConfig \<Rightarrow> string list \<Rightarrow> EmbedRequest list" where
  "generateEmbeddings_requests cfg textArray =
     map (\<lambda>text. \<lparr> er_model = ''models/'' @ cfg_embeddingModel cfg, er_text = text,
                    er_taskType = RETRIEVAL_DOCUMENT,
                    er_outputDimensionality = cfg_embeddingDimensions cfg \<rparr>) textArray"

text \<open>The result holds \<open>e.values\<close> for each entry of the reply, which is \<open>undefined\<close> (here
  \<open>None\<close>) where the entry has no values.\<close>

definition generateEmbeddings :: "World \<Rightarrow> RAGConfig \<Rightarrow> string list \<Rightarrow> js_error + real list option list" where
  "generateEmbeddings w cfg textArray =
     (case w_batchEmbedContents w (generateEmbeddings_requests cfg textArray) of
        EmbedFailed e \<Rightarrow> Inl e
      | EmbedNotOk status \<Rightarrow> Inl (Error (''Failed to generate embeddings: '' @ show_int (int status)))
      | EmbedMalformed \<Rightarrow> Inl (Error ''Unexpected embedding response format'')
      | EmbedOk embeddings \<Rightarrow> Inr embeddings)"

definition generateQueryEmbedding :: "World \<Rightarrow> RAGConfig \<Rightarrow> string \<Rightarrow> js_error + real list" where
  "generateQueryEmbedding w cfg query =
     (case w_embedContent w \<lparr> er_model = ''models/'' @ cfg_embeddingModel cfg, er_text = query,
                              er_taskType = RETRIEVAL_QUERY,
                              er_outputDimensionality = cfg_embeddingDimensions cfg \<rparr> of
        EmbedFailed e \<Rightarrow> Inl e
      | EmbedNotOk status \<Rightarrow> Inl (Error ''Failed to generate query embedding'')
      | EmbedMalformed \<Rightarrow> Inl (TypeError ''Cannot read properties of undefined (reading values)'')
      | EmbedOk v \<Rightarrow> Inr v)"

subsection \<open>The two cosine similarities\<close>

text \<open>A vector is a list of finite numbers.  The loop shared by both functions: the dot
  product and the two squared norms, over the indices of \<open>a\<close> (the two vectors have the same
  length when the loop is reached); every \<open>+=\<close> and every product rounds.\<close>

fun similarity_loop ::
  "real list \<Rightarrow> real list \<Rightarrow> js_number \<times> js_number \<times> js_number \<Rightarrow> js_number \<times> js_number \<times> js_number" where
  "similarity_loop (x # xs) (y # ys) (dotProduct, normA, normB) =
     similarity_loop xs ys
       (js_add dotProduct (js_mul (Num x) (Num y)),
        js_add normA (js_mul (Num x) (Num x)),
        js_add normB (js_mul (Num y) (Num y)))"
| "similarity_loop xs ys acc = acc"

text \<open>\<open>DocumentCrawlerService.cosineSimilarity\<close>.\<close>

definition cosineSimilarity :: "real list \<Rightarrow> real list \<Rightarrow> js_number" where
  "cosineSimilarity a b =
     (if length a \<noteq> length b \<or> length a = 0 then Num 0
      else (case similarity_loop a b (Num 0, Num 0, Num 0) of
              (dotProduct, normA, normB) \<Rightarrow>
                (let denominator = js_mul (js_sqrt normA) (js_sqrt normB) in
                 if denominator = Num 0 then Num 0 else js_div dotProduct denominator)))"

text \<open>\<open>RAGService.cosineSimilarity\<close>.\<close>

definition RAG_cosineSimilarity :: "real list \<Rightarrow> real list \<Rightarrow> js_error + js_number" where
  "RAG_cosineSimilarity a b =
     (if length a \<noteq> length b then Inl (Error ''Vectors must have same length'')
      else (case similarity_loop a b (Num 0, Num 0, Num 0) of
              (dotProduct, normA, normB) \<Rightarrow>
                Inr (js_div dotProduct (js_mul (js_sqrt normA) (js_sqrt normB)))))"

subsection \<open>\<open>RAGService.searchChunks\<close> and the retrieval of \<open>queryWithCustomRAG\<close>\<close>

record SearchResult =
  sr_document :: ChunkedDocument
  sr_score :: js_number

fun search_loop ::
  "RAGConfig \<Rightarrow> real list \<Rightarrow> ChunkedDocument list \<Rightarrow> SearchResult list \<Rightarrow> js_error + SearchResult list" where
  "search_loop cfg queryEmbedding [] results = Inr results"
| "search_loop cfg queryEmbedding (chunk # chunks) results =
     (case rc_embedding chunk of
        None \<Rightarrow> search_loop cfg queryEmbedding chunks results
      | Some embedding \<Rightarrow>
          (case RAG_cosineSimilarity queryEmbedding embedding of
             Inl e \<Rightarrow> Inl e
           | Inr score \<Rightarrow>
               search_loop cfg queryEmbedding chunks
                 (if js_ge score (cfg_minScore cfg)
                  then results @ [\<lparr> sr_document = chunk, sr_score = score \<rparr>] else results)))"

definition searchChunks :: "RAGConfig \<Rightarrow> real list \<Rightarrow> ChunkedDocument list \<Rightarrow> js_error + SearchResult list" where
  "searchChunks cfg queryEmbedding chunks =
     (case search_loop cfg queryEmbedding chunks [] of
        Inl e \<Rightarrow> Inl e
      | Inr results \<Rightarrow>
          Inr (js_slice 0 (cfg_topK cfg) (js_sort (\<lambda>a b. js_sub (sr_score b) (sr_score a)) results)))"

text \<open>The first two steps of \<open>queryWithCustomRAG\<close>: embed the query, search the chunks.\<close>

definition queryWithCustomRAG_sources ::
  "World \<Rightarrow> RAGConfig \<Rightarrow> string \<Rightarrow> ChunkedDocument list \<Rightarrow> js_error + SearchResult list" where
  "queryWithCustomRAG_sources w cfg query chunks =
     (case generateQueryEmbedding w cfg query of
        Inl e \<Rightarrow> Inl e
      | Inr queryEmbedding \<Rightarrow> searchChunks cfg queryEmbedding chunks)"

section \<open>Embedding indexer and retriever of the crawler\<close>

text \<open>The crawler builds its \<open>RAGService\<close> with \<open>new RAGService(apiKey)\<close>, that is with
  \<open>DEFAULT_CONFIG\<close>.\<close>

type_synonym DocumentStore = "string \<rightharpoonup> DocumentChunk list"

text \<open>The inner loop of \<open>embedAndStore\<close>: \<open>{ ...batch[j], embedding: embeddings[j] }\<close>.\<close>

definition attach_embeddings :: "DocumentChunk list \<Rightarrow> real list option list \<Rightarrow> DocumentChunk list" where
  "attach_embeddings batch embeddings =
     map (\<lambda>(j, chunk). chunk \<lparr> dc_embedding := (case js_nth embeddings j of None \<Rightarrow> None | Some v \<Rightarrow> v) \<rparr>)
       (zip [0 ..< length batch] batch)"

text \<open>The outer loop, in batches of 10; a failed embedding call leaves the loop by the
  exception.\<close>

fun embed_batches ::
  "World \<Rightarrow> DocumentChunk list \<Rightarrow> DocumentChunk list \<Rightarrow> js_error + DocumentChunk list" where
  "embed_batches w [] embeddedChunks = Inr embeddedChunks"
| "embed_batches w (c # cs) embeddedChunks =
     (case generateEmbeddings w DEFAULT_CONFIG (map dc_content (take 10 (c # cs))) of
        Inl e \<Rightarrow> Inl e
      | Inr embeddings \<Rightarrow>
          embed_batches w (drop 10 (c # cs)) (embeddedChunks @ attach_embeddings (take 10 (c # cs)) embeddings))"

definition embedAndStore ::
  "World \<Rightarrow> DocumentStore \<Rightarrow> DocumentChunk list \<Rightarrow> string \<Rightarrow> js_error + DocumentStore" where
  "embedAndStore w documentStore chunks storeId =
     (case embed_batches w chunks [] of
        Inl e \<Rightarrow> Inl e
      | Inr embeddedChunks \<Rightarrow> Inr (documentStore(storeId \<mapsto> embeddedChunks)))"

record QueryResult =
  qr_content :: string
  qr_source :: string
  qr_score :: js_number

definition score_chunk :: "real list \<Rightarrow> DocumentChunk \<Rightarrow> DocumentChunk \<times> js_number" where
  "score_chunk queryEmbedding chunk =
     (chunk, cosineSimilarity queryEmbedding (case dc_embedding chunk of None \<Rightarrow> [] | Some e \<Rightarrow> e))"

definition to_result :: "DocumentChunk \<times> js_number \<Rightarrow> QueryResult" where
  "to_result p = \<lparr> qr_content = dc_content (fst p), qr_source = dc_documentUrl (fst p), qr_score = snd p \<rparr>"

text \<open>\<open>queryDocuments\<close>.  When the reply holds no vector for the query, \<open>queryEmbedding\<close> is
  \<open>undefined\<close> and the first \<open>a.length\<close> of \<open>cosineSimilarity\<close> throws.\<close>

definition queryDocuments ::
  "World \<Rightarrow> DocumentStore \<Rightarrow> string \<Rightarrow> string \<Rightarrow> int \<Rightarrow> js_error + QueryResult list" where
  "queryDocuments w documentStore storeId query topK =
     (case documentStore storeId of
        None \<Rightarrow> Inr []
      | Some chunks \<Rightarrow>
          if chunks = [] then Inr []
          else
            (case generateEmbeddings w DEFAULT_CONFIG [query] of
               Inl e \<Rightarrow> Inl e
             | Inr embeddings \<Rightarrow>
                 (case (case js_nth embeddings 0 of None \<Rightarrow> None | Some v \<Rightarrow> v) of
                    None \<Rightarrow> Inl (TypeError ''Cannot read properties of undefined (reading length)'')
                  | Some queryEmbedding \<Rightarrow>
                      Inr (map to_result
                            (js_slice 0 topK
                              (js_sort (\<lambda>a b. js_sub (snd b) (snd a))
                                (map (score_chunk queryEmbedding) chunks)))))))"

definition source_block :: "nat \<times> QueryResult \<Rightarrow> string" where
  "source_block p =
     ''[Source '' @ show_int (int (fst p) + 1) @ '': '' @ qr_source (snd p) @ '']'' @ [CHR 0x0A] @ qr_content (snd p)"

definition getContextForDiagnosis ::
  "World \<Rightarrow> DocumentStore \<Rightarrow> string \<Rightarrow> string \<Rightarrow> js_error + string" where
  "getContextForDiagnosis w documentStore storeId diagnosis =
     (case queryDocuments w documentStore storeId diagnosis 10 of
        Inl e \<Rightarrow> Inl e
      | Inr results \<Rightarrow>
          if results = [] then Inr []
          else Inr (''TECHNICAL DOCUMENTATION:'' @ [CHR 0x0A, CHR 0x0A]
                    @ join ([CHR 0x0A, CHR 0x0A] @ ''---'' @ [CHR 0x0A, CHR 0x0A])
                        (map source_block (zip [0 ..< length results] results))))"

definition hasDocuments :: "DocumentStore \<Rightarrow> string \<Rightarrow> bool" where
  "hasDocuments documentStore storeId \<longleftrightarrow>
     (case documentStore storeId of None \<Rightarrow> False | Some chunks \<Rightarrow> chunks \<noteq> [])"

section \<open>Source discovery\<close>

text \<open>\<open>adjustScoreBySource\<close>.  The spread of \<open>TRUSTED_SOURCES[equipmentType] || []\<close> throws for a
  key inherited from \<open>Object.prototype\<close>.  The relevance scores only order the targets; they
  are kept as real numbers, without the rounding of \<open>fl\<close>.\<close>

definition adjustScoreBySource :: "CrawlTarget \<Rightarrow> string \<Rightarrow> js_error + real" where
  "adjustScoreBySource target equipmentType =
     (case lookup_property TRUSTED_SOURCES equipmentType of
        Inherited \<Rightarrow> Inl (TypeError ''Spread syntax requires ...iterable[Symbol.iterator] to be a function'')
      | found \<Rightarrow>
          (let sources = (case found of Own l \<Rightarrow> l | _ \<Rightarrow> []) @ TRUSTED_SOURCES_general in
           case find (\<lambda>s. str_includes (ct_source target) (ts_domain s)) sources of
             Some source \<Rightarrow> Inr (ct_relevanceScore target * ts_weight source + 0.3)
           | None \<Rightarrow> Inr (ct_relevanceScore target * 0.7)))"

text \<open>The two nested loops of \<open>findRelevantUrls\<close> over the targets of all queries, in the order
  of the queries (the batches of three only bound how many searches are in flight).\<close>

fun collect_targets ::
  "string \<Rightarrow> string list \<Rightarrow> CrawlTarget list \<Rightarrow> CrawlTarget list \<Rightarrow> js_error + CrawlTarget list" where
  "collect_targets equipmentType seenUrls allTargets [] = Inr allTargets"
| "collect_targets equipmentType seenUrls allTargets (target # targets) =
     (if ct_url target \<in> set seenUrls then collect_targets equipmentType seenUrls allTargets targets
      else (case adjustScoreBySource target equipmentType of
              Inl e \<Rightarrow> Inl e
            | Inr score \<Rightarrow>
                collect_targets equipmentType (ct_url target # seenUrls)
                  (allTargets @ [target \<lparr> ct_relevanceScore := score \<rparr>]) targets))"

definition findRelevantUrls :: "World \<Rightarrow> string list \<Rightarrow> string \<Rightarrow> js_error + CrawlTarget list" where
  "findRelevantUrls w queries equipmentType =
     (case collect_targets equipmentType [] [] (concat (map (w_searchForUrls w) queries)) of
        Inl e \<Rightarrow> Inl e
      | Inr allTargets \<Rightarrow>
          Inr (js_slice 0 15
                (js_sort (\<lambda>a b. Num (ct_relevanceScore b - ct_relevanceScore a)) allTargets)))"

section \<open>\<open>ingestForEquipment\<close>\<close>

text \<open>The state of a \<open>DocumentCrawlerService\<close>: its two private maps.\<close>

record CrawlerState =
  documentStore :: DocumentStore
  crawlCache :: "string \<rightharpoonup> CrawledDocument"

text \<open>What one ingestion run takes from its environment: the clock readings (\<open>Date.now()\<close> at
  the start, in \<open>generateStoreId\<close> and at the return, and the time stamp of the crawled
  documents), and the order in which the concurrent crawls of step 3 complete, as a list of
  positions in the list of the crawled targets.\<close>

record IngestClock =
  startTime :: int
  crawlTime :: string
  storeTime :: int
  endTime :: int
  completion :: "nat list"

text \<open>\<open>generateStoreId\<close>: \<open>filter(Boolean)\<close> drops the missing and the empty fields.\<close>

definition generateStoreId :: "EquipmentQuery \<Rightarrow> int \<Rightarrow> string" where
  "generateStoreId query now =
     (let parts = replace_matches match_spaces ''-''
                    (toLowerCase (join ''-''
                       (filter (\<lambda>p. p \<noteq> [])
                          [eq_type query, or_empty (eq_make query), or_empty (eq_model query),
                           or_empty (eq_year query)])))
      in ''equipment-'' @ parts @ ''-'' @ show_int now)"

text \<open>Step 3: the crawls of the first ten targets.  They run concurrently in the source and
  each pushes its document onto \<open>crawledDocs\<close> when it completes, so the documents are in the
  order of completion.  The targets have distinct URLs, so no crawl reads what another one
  writes into the cache, and the model runs the crawls one after the other in the order of
  completion: \<open>arrange\<close> puts the targets in that order (a \<open>completion\<close> that is not a
  permutation of the positions stands for the order of the targets).  No crawl throws, so
  \<open>errors\<close> stays empty.\<close>

definition arrange :: "nat list \<Rightarrow> 'a list \<Rightarrow> 'a list" where
  "arrange order xs = (if sort order = [0 ..< length xs] then map (\<lambda>j. xs ! j) order else xs)"

fun crawl_all ::
  "World \<Rightarrow> string \<Rightarrow> (string \<rightharpoonup> CrawledDocument) \<Rightarrow> CrawlTarget list
     \<Rightarrow> CrawledDocument list \<times> (string \<rightharpoonup> CrawledDocument)" where
  "crawl_all w now cache [] = ([], cache)"
| "crawl_all w now cache (target # targets) =
     (case crawlUrl w now cache target of
        (result, cache') \<Rightarrow>
          (case crawl_all w now cache' targets of
             (docs, cache'') \<Rightarrow> ((case result of None \<Rightarrow> docs | Some doc \<Rightarrow> doc # docs), cache'')))"

text \<open>The result of the \<open>catch\<close> block.\<close>

definition failed_ingestion :: "IngestClock \<Rightarrow> js_error \<Rightarrow> IngestionResult" where
  "failed_ingestion clock e =
     \<lparr> ir_success = False, ir_documentsFound = 0, ir_documentsCrawled = 0, ir_chunksCreated = 0,
       ir_storeId = None, ir_errors = [error_message e],
       ir_processingTime = endTime clock - startTime clock \<rparr>"

definition ingestForEquipment ::
  "World \<Rightarrow> IngestClock \<Rightarrow> CrawlerState \<Rightarrow> EquipmentQuery \<Rightarrow> IngestionResult \<times> CrawlerState" where
  "ingestForEquipment w clock st query =
     (case generateSearchQueries query of
        Inl e \<Rightarrow> (failed_ingestion clock e, st)
      | Inr searchQueries \<Rightarrow>
          (case findRelevantUrls w searchQueries (eq_type query) of
             Inl e \<Rightarrow> (failed_ingestion clock e, st)
           | Inr targets \<Rightarrow>
               if targets = [] then
                 (\<lparr> ir_success = False, ir_documentsFound = 0, ir_documentsCrawled = 0,
                     ir_chunksCreated = 0, ir_storeId = None,
                     ir_errors = [''No relevant documents found''],
                     ir_processingTime = endTime clock - startTime clock \<rparr>, st)
               else
                 (case crawl_all w (crawlTime clock) (crawlCache st)
                         (arrange (completion clock) (js_slice 0 10 targets)) of
                    (crawledDocs, cache') \<Rightarrow>
                      (let allChunks = concat (map chunkDocument crawledDocs);
                           storeId = generateStoreId query (storeTime clock)
                       in case embedAndStore w (documentStore st) allChunks storeId of
                            Inl e \<Rightarrow> (failed_ingestion clock e, st \<lparr> crawlCache := cache' \<rparr>)
                          | Inr store' \<Rightarrow>
                              (\<lparr> ir_success = True, ir_documentsFound = length targets,
                                  ir_documentsCrawled = length crawledDocs,
                                  ir_chunksCreated = length allChunks, ir_storeId = Some storeId,
                                  ir_errors = [],
                                  ir_processingTime = endTime clock - startTime clock \<rparr>,
                               \<lparr> documentStore = store', crawlCache = cache' \<rparr>)))))"

section \<open>Pipeline orchestrator (\<open>POST\<close> of \<open>listen-and-fix/route.ts\<close>)\<close>

record EquipmentInfo =
  ei_type :: string
  ei_category :: "string option"
  ei_make :: "string option"
  ei_model :: "string option"
  ei_year :: "string option"
  ei_additionalInfo :: "string option"

text \<open>The reply of \<open>performDiagnosis\<close>, with the fields its response schema requires.\<close>

record Diagnosis =
  primaryDiagnosis :: string
  confidence :: real
  severity :: string
  symptoms :: "string list"
  possibleCauses :: "string list"
  requiresExpertReview :: bool

text \<open>Steps 1 to 3b.  \<open>ingestions\<close> lists the queries \<open>ingestForEquipment\<close> was called with, in
  the order of the calls; \<open>currentStore\<close> is the variable \<open>storeId\<close> at the end of step 3b.\<close>

record IngestPhase =
  ingestions :: "EquipmentQuery list"
  crawlResult :: IngestionResult
  currentStore :: "string option"
  crawler :: CrawlerState

definition crawlQuery_of :: "string option \<Rightarrow> EquipmentInfo \<Rightarrow> EquipmentQuery" where
  "crawlQuery_of description equipment =
     \<lparr> eq_type = ei_type equipment, eq_make = ei_make equipment, eq_model = ei_model equipment,
       eq_year = ei_year equipment, eq_symptom = map_option (js_slice 0 100) description,
       eq_diagnosis = None \<rparr>"

definition targeted_query :: "EquipmentQuery \<Rightarrow> Diagnosis \<Rightarrow> EquipmentQuery" where
  "targeted_query crawlQuery diagnosis =
     crawlQuery \<lparr> eq_diagnosis := Some (primaryDiagnosis diagnosis),
                  eq_symptom := Some (join '', '' (symptoms diagnosis)) \<rparr>"

definition ingest_phase ::
  "World \<Rightarrow> IngestClock \<Rightarrow> IngestClock \<Rightarrow> CrawlerState \<Rightarrow> string option \<Rightarrow> EquipmentInfo \<Rightarrow> Diagnosis
     \<Rightarrow> IngestPhase" where
  "ingest_phase w clock1 clock2 st description equipment diagnosis =
     (let crawlQuery = crawlQuery_of description equipment in
      case ingestForEquipment w clock1 st crawlQuery of
        (first, st1) \<Rightarrow>
          if ir_chunksCreated first < 5 \<and> primaryDiagnosis diagnosis \<noteq> [] then
            (case ingestForEquipment w clock2 st1 (targeted_query crawlQuery diagnosis) of
               (targetedCrawl, st2) \<Rightarrow>
                 \<lparr> ingestions = [crawlQuery, targeted_query crawlQuery diagnosis],
                   crawlResult = first,
                   currentStore = (if ir_chunksCreated first < ir_chunksCreated targetedCrawl
                                   then ir_storeId targetedCrawl else ir_storeId first),
                   crawler = st2 \<rparr>)
          else
            \<lparr> ingestions = [crawlQuery], crawlResult = first, currentStore = ir_storeId first,
              crawler = st1 \<rparr>)"

text \<open>\<open>searchTechnicalDocs\<close>; the grounded generation call is the parameter \<open>search\<close>, given
  the search query.\<close>

definition searchTechnicalDocs :: "(string \<Rightarrow> api_reply) \<Rightarrow> EquipmentInfo \<Rightarrow> Diagnosis \<Rightarrow> js_error + string" where
  "searchTechnicalDocs search equipment diagnosis =
     (let searchQuery = join '' ''
            (filter (\<lambda>p. p \<noteq> [])
               [or_empty (ei_make equipment), or_empty (ei_model equipment), or_empty (ei_year equipment),
                primaryDiagnosis diagnosis, ''repair guide'', ''how to fix''])
      in case search searchQuery of
           ApiFailed e \<Rightarrow> Inl e
         | ApiNotOk status \<Rightarrow> Inr []
         | ApiText t \<Rightarrow> Inr (or_empty t))"

text \<open>Steps 4 and 4b.  \<open>webSearch\<close> records whether \<open>searchTechnicalDocs\<close> was called.\<close>

record ContextPhase =
  technicalContext :: string
  webSearch :: bool

definition context_phase ::
  "World \<Rightarrow> (string \<Rightarrow> api_reply) \<Rightarrow> DocumentStore \<Rightarrow> string option \<Rightarrow> EquipmentInfo \<Rightarrow> Diagnosis
     \<Rightarrow> js_error + ContextPhase" where
  "context_phase w search store current equipment diagnosis =
     (case (if or_empty current \<noteq> [] \<and> hasDocuments store (or_empty current)
            then getContextForDiagnosis w store (or_empty current)
                   (primaryDiagnosis diagnosis @ '' '' @ join '' '' (symptoms diagnosis) @ '' repair guide'')
            else Inr []) of
        Inl e \<Rightarrow> Inl e
      | Inr retrieved \<Rightarrow>
          if length retrieved < 500 then
            (case searchTechnicalDocs search equipment diagnosis of
               Inl e \<Rightarrow> Inl e
             | Inr searchContext \<Rightarrow>
                 Inr \<lparr> technicalContext =
                         (if retrieved \<noteq> [] then
                            retrieved @ [CHR 0x0A, CHR 0x0A] @ ''---'' @ [CHR 0x0A, CHR 0x0A]
                              @ ''ADDITIONAL WEB SEARCH RESULTS:'' @ [CHR 0x0A] @ searchContext
                          else searchContext),
                       webSearch = True \<rparr>)
          else Inr \<lparr> technicalContext = retrieved, webSearch = False \<rparr>)"

text \<open>The request up to step 4b.  A diagnosis call that throws fails the request.\<close>

definition gather_context ::
  "World \<Rightarrow> (string \<Rightarrow> api_reply) \<Rightarrow> IngestClock \<Rightarrow> IngestClock \<Rightarrow> CrawlerState \<Rightarrow> string option
     \<Rightarrow> EquipmentInfo \<Rightarrow> js_error + Diagnosis \<Rightarrow> js_error + ContextPhase" where
  "gather_context w search clock1 clock2 st description equipment diagnosed =
     (case diagnosed of
        Inl e \<Rightarrow> Inl e
      | Inr diagnosis \<Rightarrow>
          (let phase = ingest_phase w clock1 clock2 st description equipment diagnosis
           in context_phase w search (documentStore (crawler phase)) (currentStore phase) equipment diagnosis))"

section \<open>Auxiliary notions of the proofs\<close>

text \<open>The characters of a string that are not white space.\<close>

definition visible :: "string \<Rightarrow> string" where
  "visible s = filter (\<lambda>c. \<not> is_space c) s"

text \<open>A chunk without its embedding.\<close>

definition without_embedding :: "DocumentChunk \<Rightarrow> DocumentChunk" where
  "without_embedding chunk = chunk \<lparr> dc_embedding := None \<rparr>"

text \<open>Worlds for the examples.  In \<open>quiet_world\<close> every search finds nothing and every call
  fails.  In \<open>probe_world\<close> the embedding service answers a request of task type
  \<open>RETRIEVAL_DOCUMENT\<close> with the vector \<open>(1, 0)\<close> and a request of task type
  \<open>RETRIEVAL_QUERY\<close> with \<open>(0, 1)\<close>, so a score tells which mode embedded the query.\<close>

definition probe_vector :: "EmbedRequest \<Rightarrow> real list" where
  "probe_vector r = (if er_taskType r = RETRIEVAL_QUERY then [0, 1] else [1, 0])"

definition quiet_world :: World where
  "quiet_world =
     \<lparr> w_searchForUrls = (\<lambda>q. []),
       w_fetch = (\<lambda>u. FetchFailed (Error ''offline'')),
       w_distill = (\<lambda>t x. ApiFailed (Error ''offline'')),
       w_batchEmbedContents = (\<lambda>rs. EmbedFailed (Error ''offline'')),
       w_embedContent = (\<lambda>r. EmbedFailed (Error ''offline'')) \<rparr>"

definition probe_world :: World where
  "probe_world =
     quiet_world \<lparr> w_batchEmbedContents := (\<lambda>rs. EmbedOk (map (\<lambda>r. Some (probe_vector r)) rs)),
                   w_embedContent := (\<lambda>r. EmbedOk (probe_vector r)) \<rparr>"

definition example_chunk :: "string \<Rightarrow> real list option \<Rightarrow> DocumentChunk" where
  "example_chunk text v =
     \<lparr> dc_id = ''2p-0'', dc_documentUrl = ''a'', dc_content = text, dc_chunkIndex = 0,
       dc_embedding = v, dc_metadata = \<lparr> cm_title = ''t'', cm_source = ''a.example'', cm_section = None \<rparr> \<rparr>"

definition example_clock :: IngestClock where
  "example_clock =
     \<lparr> startTime = 1000, crawlTime = ''2025-01-01T00:00:00.000Z'', storeTime = 1500, endTime = 2000,
       completion = [0] \<rparr>"

definition empty_crawler :: CrawlerState where
  "empty_crawler = \<lparr> documentStore = Map.empty, crawlCache = Map.empty \<rparr>"

text \<open>The dot product and the squared norm as the loop of the cosine similarities computes
  them: the first and the second component of \<open>similarity_loop\<close>.\<close>

fun dot_loop :: "real list \<Rightarrow> real list \<Rightarrow> js_number \<Rightarrow> js_number" where
  "dot_loop (x # xs) (y # ys) acc = dot_loop xs ys (js_add acc (js_mul (Num x) (Num y)))"
| "dot_loop xs ys acc = acc"

fun norm_loop :: "real list \<Rightarrow> js_number \<Rightarrow> js_number" where
  "norm_loop (x # xs) acc = norm_loop xs (js_add acc (js_mul (Num x) (Num x)))"
| "norm_loop [] acc = acc"

definition squared_norm :: "real list \<Rightarrow> js_number" where
  "squared_norm v = norm_loop v (Num 0)"

text \<open>What a computed squared norm can be: a number that is not negative, or \<open>Infinity\<close>.\<close>

fun norm_ok :: "js_number \<Rightarrow> bool" where
  "norm_ok (Num y) \<longleftrightarrow> 0 \<le> y \<and> y \<le> 2 * overflow_bound + 1"
| "norm_ok PosInfinity \<longleftrightarrow> True"
| "norm_ok _ \<longleftrightarrow> False"

text \<open>The doubles are multiples of \<open>2\<^sup>-\<^sup>1\<^sup>0\<^sup>7\<^sup>4\<close>; a number is representable when it is a double, an
  infinity or \<open>NaN\<close>.\<close>

definition is_double :: "real \<Rightarrow> bool" where
  "is_double x \<longleftrightarrow> (\<exists>k::int. x = of_int k * 2 powi (- 1074))"

fun representable :: "js_number \<Rightarrow> bool" where
  "representable (Num x) \<longleftrightarrow> is_double x"
| "representable _ \<longleftrightarrow> True"

text \<open>\<open>x >= y\<close> on two numbers.\<close>

fun js_geq :: "js_number \<Rightarrow> js_number \<Rightarrow> bool" where
  "js_geq NaN _ \<longleftrightarrow> False"
| "js_geq _ NaN \<longleftrightarrow> False"
| "js_geq PosInfinity _ \<longleftrightarrow> True"
| "js_geq _ NegInfinity \<longleftrightarrow> True"
| "js_geq (Num x) (Num y) \<longleftrightarrow> y \<le> x"
| "js_geq _ _ \<longleftrightarrow> False"

text \<open>In \<open>steep_world\<close> the embedding service answers every request with the vector
  \<open>(2\<^sup>5\<^sup>0\<^sup>0)\<close>.\<close>

definition steep_world :: World where
  "steep_world =
     quiet_world \<lparr> w_batchEmbedContents := (\<lambda>rs. EmbedOk (map (\<lambda>r. Some [2 ^ 500]) rs)),
                   w_embedContent := (\<lambda>r. EmbedOk [2 ^ 500]) \<rparr>"

definition example_search :: "string \<Rightarrow> api_reply" where
  "example_search q = ApiText (Some ''Replace the outer CV joint.'')"

definition example_equipment :: EquipmentInfo where
  "example_equipment =
     \<lparr> ei_type = ''vehicle'', ei_category = None, ei_make = Some ''Honda'', ei_model = Some ''Accord'',
       ei_year = Some ''2019'', ei_additionalInfo = None \<rparr>"

definition example_diagnosis :: Diagnosis where
  "example_diagnosis =
     \<lparr> primaryDiagnosis = ''worn CV joint'', confidence = 0.8, severity = ''medium'',
       symptoms = [''clicking when turning'', ''grease on wheel''],
       possibleCauses = [''torn boot''], requiresExpertReview = False \<rparr>"



text \<open>What claim C5 compares of a chunk: its id, its ordinal and its text.\<close>

definition chunk_key :: "DocumentChunk \<Rightarrow> string \<times> nat \<times> string" where
  "chunk_key chunk = (dc_id chunk, dc_chunkIndex chunk, dc_content chunk)"

text \<open>A list of chunks that carries the ordinals \<open>0, 1, \<dots>\<close> in order, each chunk with the
  URL of the document and with the id made of the hash of that URL, a hyphen and the ordinal.\<close>

definition labelled :: "CrawledDocument \<Rightarrow> DocumentChunk list \<Rightarrow> bool" where
  "labelled doc chunks \<longleftrightarrow>
     map (\<lambda>c. (dc_id c, dc_chunkIndex c, dc_documentUrl c)) chunks
       = map (\<lambda>i. (hashString (cd_url doc) @ ''-'' @ show_int (int i), i, cd_url doc)) [0 ..< length chunks]"

definition example_document :: "string \<Rightarrow> CrawledDocument" where
  "example_document extracted =
     \<lparr> cd_url = ''a'', cd_title = ''t'', cd_content = replicate 60 (CHR ''x''),
       cd_contentType = Article, cd_extractedAt = extracted,
       cd_metadata = \<lparr> md_source = ''a.example'', md_wordCount = 1, md_hasImages = False,
                       md_hasPartNumbers = False, md_hasTorqueSpecs = False \<rparr> \<rparr>"

(*PROOFS*)

section \<open>Properties of \<open>RAGService.chunkDocument\<close>\<close>

lemma filter_Cons_mem: "filter P xs = i # rest \<Longrightarrow> i \<in> set xs"
  by (metis filter_is_subset list.set_intros(1) subsetD)

lemma lastIndexOf_range:
  "lastIndexOf s pat pos = - 1 \<or> (0 \<le> lastIndexOf s pat pos \<and> lastIndexOf s pat pos + int (length pat) \<le> int (length s))"
proof (cases "length s < length pat")
  case True
  then show ?thesis by (simp add: lastIndexOf_def)
next
  case False
  let ?ks = "rev [0 ..< Suc (min (nat (max pos 0)) (length s - length pat))]"
  show ?thesis
  proof (cases "filter (\<lambda>i. take (length pat) (drop i s) = pat) ?ks")
    case Nil
    with False show ?thesis by (simp add: lastIndexOf_def Let_def)
  next
    case (Cons i rest)
    then have "i \<in> set ?ks" by (rule filter_Cons_mem)
    then have "i \<le> length s - length pat" by auto
    with False have "int i + int (length pat) \<le> int (length s)" by linarith
    with False Cons show ?thesis by (simp add: lastIndexOf_def Let_def)
  qed
qed

lemma chunk_end_le:
  assumes "content \<noteq> []"
  shows "chunk_end cfg content start \<le> int (length content)"
proof -
  have len: "1 \<le> int (length content)"
    using assms by (cases content) simp_all
  have a: "lastIndexOf content ''.'' p + 1 \<le> int (length content)" for p
    using lastIndexOf_range [of content "''.''" p] len by auto
  have b: "lastIndexOf content [CHR 0x0A, CHR 0x0A] p + 2 \<le> int (length content)" for p
    using lastIndexOf_range [of content "[CHR 0x0A, CHR 0x0A]" p] len by auto
  show ?thesis
    unfolding chunk_end_def Let_def using a b by (simp add: min_def)
qed

lemma chunk_loop_never_returns:
  assumes "chunk_loop cfg document start chunkIndex chunks = Some y"
  shows "\<not> (0 < cfg_chunkOverlap cfg \<and> start < int (length (rd_content document)) \<and> rd_content document \<noteq> [])"
proof (rule chunk_loop.raw_induct
    [where P = "\<lambda>cfg document start chunkIndex chunks y.
        \<not> (0 < cfg_chunkOverlap cfg \<and> start < int (length (rd_content document)) \<and> rd_content document \<noteq> [])",
     OF _ assms])
  fix loop :: "RAGConfig \<Rightarrow> Document \<Rightarrow> int \<Rightarrow> int \<Rightarrow> ChunkedDocument list \<Rightarrow> ChunkedDocument list option"
    and cfg :: RAGConfig and document :: Document and start chunkIndex :: int
    and chunks y :: "ChunkedDocument list"
  assume IH: "\<And>(cfg :: RAGConfig) (document :: Document) start chunkIndex chunks y.
      loop cfg document start chunkIndex chunks = Some y \<Longrightarrow>
      \<not> (0 < cfg_chunkOverlap cfg \<and> start < int (length (rd_content document)) \<and> rd_content document \<noteq> [])"
  assume body: "(if start < int (length (rd_content document)) then
        loop cfg document
          (chunk_end cfg (rd_content document) start - cfg_chunkOverlap cfg)
          (chunkIndex + 1)
          (chunks @ [make_chunk document chunkIndex start (chunk_end cfg (rd_content document) start)])
      else Some chunks) = Some y"
  show "\<not> (0 < cfg_chunkOverlap cfg \<and> start < int (length (rd_content document)) \<and> rd_content document \<noteq> [])"
  proof
    assume h: "0 < cfg_chunkOverlap cfg \<and> start < int (length (rd_content document)) \<and> rd_content document \<noteq> []"
    with body have "loop cfg document (chunk_end cfg (rd_content document) start - cfg_chunkOverlap cfg)
          (chunkIndex + 1)
          (chunks @ [make_chunk document chunkIndex start (chunk_end cfg (rd_content document) start)]) = Some y"
      by simp
    from IH [OF this] h chunk_end_le [of "rd_content document" cfg start]
    show False by simp
  qed
qed

text \<open>
  Claim C10 says that \<open>RAGService.chunkDocument\<close> returns for every document with non-empty
  content.  The loop does the opposite: every iteration ends with
  \<open>start = end - overlap\<close> where \<open>end \<le> content.length\<close>, so with a positive overlap (200 by
  default) \<open>start\<close> stays below \<open>content.length\<close> and the loop condition never fails.  For every
  non-empty content the function does not return.
\<close>

theorem RAG_chunkDocument_never_returns:
  "0 < cfg_chunkOverlap cfg \<Longrightarrow> rd_content document \<noteq> [] \<Longrightarrow> RAG_chunkDocument cfg document = None"
proof (rule ccontr)
  assume ov: "0 < cfg_chunkOverlap cfg" and ne: "rd_content document \<noteq> []"
  assume "RAG_chunkDocument cfg document \<noteq> None"
  then obtain y where "chunk_loop cfg document 0 0 [] = Some y"
    by (auto simp: RAG_chunkDocument_def)
  from chunk_loop_never_returns [OF this] ov ne show False by simp
qed

theorem RAG_chunkDocument_never_returns_witness:
  "0 < cfg_chunkOverlap DEFAULT_CONFIG
   \<and> rd_content \<lparr> rd_id = ''d'', rd_content = ''a'', rd_metadata = None \<rparr> \<noteq> []
   \<and> RAG_chunkDocument DEFAULT_CONFIG \<lparr> rd_id = ''d'', rd_content = ''a'', rd_metadata = None \<rparr> = None"
  using RAG_chunkDocument_never_returns
    [of DEFAULT_CONFIG "\<lparr> rd_id = ''d'', rd_content = ''a'', rd_metadata = None \<rparr>"]
  by (simp add: DEFAULT_CONFIG_def)

lemma RAG_chunkDocument_empty:
  "rd_content document = [] \<Longrightarrow> RAG_chunkDocument cfg document = Some []"
  by (simp add: RAG_chunkDocument_def chunk_loop.simps)

section \<open>Properties of the query synthesizer\<close>

lemma index_of_split:
  "index_of (\<lambda>c. c) pat s = Some i \<Longrightarrow> s = take i s @ pat @ drop (i + length pat) s"
proof (induction s arbitrary: i)
  case Nil
  then show ?case by (simp split: if_splits)
next
  case (Cons c s)
  show ?case
  proof (cases "prefix pat (c # s)")
    case True
    then obtain r where r: "c # s = pat @ r" by (auto simp: prefix_def)
    from True Cons.prems have i: "i = 0" by simp
    show ?thesis unfolding i r by simp
  next
    case False
    with Cons.prems obtain j where j: "index_of (\<lambda>c. c) pat s = Some j" "i = Suc j" by auto
    from Cons.IH [OF j(1)] j(2) show ?thesis by simp
  qed
qed

lemma index_of_id_split:
  "index_of id pat s = Some i \<Longrightarrow> s = take i s @ pat @ drop (i + length pat) s"
  using index_of_split [of pat s i] by (simp add: id_def)

lemma suffix_behind_marker:
  assumes "suffix suf (pre @ pat @ post)" "pat \<noteq> []" "last pat \<notin> set suf"
  shows "suffix suf post"
proof -
  from assms(1) have "suffix suf ((pre @ pat) @ post)" by simp
  then have "suffix suf post \<or> (\<exists>zs. suffix zs (pre @ pat) \<and> suf = zs @ post)"
    using suffix_append [of suf "pre @ pat" post] by blast
  then show ?thesis
  proof
    assume "suffix suf post"
    then show ?thesis .
  next
    assume "\<exists>zs. suffix zs (pre @ pat) \<and> suf = zs @ post"
    then obtain zs where zs: "suffix zs (pre @ pat)" "suf = zs @ post" by blast
    show ?thesis
    proof (cases "zs = []")
      case True
      with zs(2) show ?thesis by simp
    next
      case False
      from zs(1) obtain ws where "pre @ pat = ws @ zs" by (auto simp: suffix_def)
      with False assms(2) have "last zs = last pat" by (metis last_appendR)
      with zs(2) False have "last pat \<in> set suf" by (metis Un_iff last_in_set set_append)
      with assms(3) show ?thesis by simp
    qed
  qed
qed

lemma js_replace_keeps_suffix:
  assumes "suffix suf s" "pat \<noteq> []" "last pat \<notin> set suf"
  shows "suffix suf (js_replace pat rep s)"
proof (cases "index_of id pat s")
  case None
  with assms(1) show ?thesis by (simp add: js_replace_def)
next
  case (Some i)
  from index_of_id_split [OF Some] assms(1)
  have "suffix suf (take i s @ pat @ drop (i + length pat) s)" by simp
  from suffix_behind_marker [OF this assms(2,3)]
  have "suffix suf (drop (i + length pat) s)" .
  then have "suffix suf (take i s @ expand_replacement pat (take i s) (drop (i + length pat) s) rep
      @ drop (i + length pat) s)"
    by (metis suffix_appendI)
  with Some show ?thesis by (simp add: js_replace_def Let_def)
qed

lemma visible_dropWhile: "visible (dropWhile is_space s) = visible s"
  by (induction s) (simp_all add: visible_def)

lemma visible_drop_spaces:
  "n \<le> length (takeWhile is_space s) \<Longrightarrow> visible (drop n s) = visible s"
proof (induction s arbitrary: n)
  case Nil
  then show ?case by simp
next
  case (Cons c s)
  then show ?case by (cases n) (auto simp: visible_def split: if_splits)
qed

lemma visible_collapse: "visible (replace_matches match_spaces '' '' s) = visible s"
proof (induction match_spaces "'' ''" s rule: replace_matches.induct)
  case 1
  then show ?case by simp
next
  case (2 c s)
  show ?case
  proof (cases "match_spaces (c # s)")
    case None
    with 2 have "\<not> is_space c" by (auto simp: match_spaces_def split: nat.splits if_splits)
    with None 2 show ?thesis by (simp add: visible_def)
  next
    case (Some k)
    have sp: "is_space c"
      using Some by (cases "is_space c") (simp_all add: match_spaces_def)
    with Some have k: "k = Suc (length (takeWhile is_space s))"
      by (simp add: match_spaces_def)
    from 2(3) [OF Some k]
    have "visible (replace_matches match_spaces '' '' (drop (length (takeWhile is_space s)) s))
        = visible (drop (length (takeWhile is_space s)) s)" .
    moreover have "visible (drop (length (takeWhile is_space s)) s) = visible s"
      by (simp add: visible_drop_spaces)
    moreover have "is_space (CHR '' '')" by (simp add: is_space_def)
    ultimately show ?thesis using Some k sp by (simp add: visible_def)
  qed
qed

lemma visible_trim: "visible (trim s) = visible s"
proof -
  have "visible (rev xs) = rev (visible xs)" for xs by (simp add: visible_def rev_filter)
  then show ?thesis
    by (metis trim_def visible_dropWhile rev_rev_ident)
qed

lemma visible_suffix_length: "suffix suf s \<Longrightarrow> length (visible suf) \<le> length (visible s)"
  by (auto simp: suffix_def visible_def)

lemma length_visible_le: "length (visible s) \<le> length s"
  by (simp add: visible_def)

lemma fill_template_long:
  assumes "suffix suf template" "CHR ''}'' \<notin> set suf"
  shows "length (visible suf) \<le> length (fill_template query template)"
proof -
  let ?r = "js_replace ''{diagnosis}'' (or_empty (eq_diagnosis query))
       (js_replace ''{symptom}'' (or_empty (eq_symptom query))
       (js_replace ''{year}'' (or_empty (eq_year query))
       (js_replace ''{model}'' (or_empty (eq_model query))
       (js_replace ''{make}'' (or_empty (eq_make query))
       (js_replace ''{type}'' (eq_type query) template)))))"
  have "suffix suf ?r"
    using assms by (intro js_replace_keeps_suffix) simp_all
  then have "length (visible suf) \<le> length (visible ?r)" by (rule visible_suffix_length)
  also have "visible ?r = visible (fill_template query template)"
    by (simp add: fill_template_def visible_trim visible_collapse)
  also have "length \<dots> \<le> length (fill_template query template)" by (rule length_visible_le)
  finally show ?thesis .
qed

lemma first_general_query_long:
  "10 < length (fill_template query ''{type} {symptom} repair guide'')"
proof -
  have "suffix '' repair guide'' ''{type} {symptom} repair guide''"
    by (simp add: suffix_def)
  from fill_template_long [OF this, of query]
  show ?thesis by (simp add: visible_def is_space_def)
qed

lemma dedupe_distinct: "distinct (dedupe xs)"
  by (simp add: dedupe_def)

lemma set_dedupe: "set (dedupe xs) = set xs"
  by (simp add: dedupe_def)

text \<open>
  What holds of the fallback.  For an equipment category for which the lookup in the
  search-template table yields \<open>undefined\<close>, \<open>generateSearchQueries\<close> returns normally, and its
  result is the generic template list with the fields of the query substituted, the queries of
  at most 10 characters dropped and duplicates removed; the result holds at least one query,
  every query in it is longer than 10 characters, and no query occurs twice.  (The first generic
  template always survives: its literal text \<open>repair guide\<close> alone has 12 characters.  So the
  result is non-empty whether or not a field of the query is present.)
\<close>

lemma generateSearchQueries_generic_fallback:
  assumes "lookup_property SEARCH_TEMPLATES (eq_type query) = Undefined"
  shows "generateSearchQueries query
           = Inr (dedupe (filter (\<lambda>q. 10 < length q) (map (fill_template query) SEARCH_TEMPLATES_general)))
         \<and> (case generateSearchQueries query of
              Inl e \<Rightarrow> False
            | Inr qs \<Rightarrow> distinct qs \<and> (\<forall>q \<in> set qs. 10 < length q) \<and> qs \<noteq> [])"
proof -
  let ?qs = "queries_from query SEARCH_TEMPLATES_general"
  have "fill_template query ''{type} {symptom} repair guide'' \<in> set ?qs"
    using first_general_query_long [of query]
    by (simp add: queries_from_def set_dedupe SEARCH_TEMPLATES_general_def)
  then have ne: "?qs \<noteq> []" by auto
  have dist: "distinct ?qs" by (simp add: queries_from_def dedupe_distinct)
  have long: "\<forall>q \<in> set ?qs. 10 < length q" by (simp add: queries_from_def set_dedupe)
  have eq: "generateSearchQueries query = Inr ?qs"
    using assms by (simp add: generateSearchQueries_def)
  have "case generateSearchQueries query of
          Inl e \<Rightarrow> False
        | Inr qs \<Rightarrow> distinct qs \<and> (\<forall>q \<in> set qs. 10 < length q) \<and> qs \<noteq> []"
    unfolding eq sum.case using dist long ne by (intro conjI)
  moreover have "generateSearchQueries query
      = Inr (dedupe (filter (\<lambda>q. 10 < length q) (map (fill_template query) SEARCH_TEMPLATES_general)))"
    using eq by (simp only: queries_from_def)
  ultimately show ?thesis by (intro conjI)
qed

lemma generateSearchQueries_generic_fallback_example:
  "lookup_property SEARCH_TEMPLATES (eq_type \<lparr> eq_type = ''plumbing'', eq_make = Some ''Moen'', eq_model = None,
       eq_year = None, eq_symptom = Some ''drip'', eq_diagnosis = None \<rparr>) = Undefined
   \<and> generateSearchQueries \<lparr> eq_type = ''plumbing'', eq_make = Some ''Moen'', eq_model = None,
       eq_year = None, eq_symptom = Some ''drip'', eq_diagnosis = None \<rparr>
     = Inr [''plumbing drip repair guide'', ''how to fix plumbing'', ''Moen troubleshooting'', ''DIY plumbing repair drip'']"
proof -
  let ?q = "\<lparr> eq_type = ''plumbing'', eq_make = Some ''Moen'', eq_model = None,
       eq_year = None, eq_symptom = Some ''drip'', eq_diagnosis = None \<rparr>"
  have h: "lookup_property SEARCH_TEMPLATES (eq_type ?q) = Undefined"
    by code_simp
  have "dedupe (filter (\<lambda>q. 10 < length q) (map (fill_template ?q) SEARCH_TEMPLATES_general))
      = [''plumbing drip repair guide'', ''how to fix plumbing'', ''Moen troubleshooting'', ''DIY plumbing repair drip'']"
    by code_simp
  with generateSearchQueries_generic_fallback [OF h] h show ?thesis by simp
qed

text \<open>
  Claim C8 says that for every equipment category that has no entry in the search-template
  table, \<open>generateSearchQueries\<close> uses the generic template list and returns at least one query
  whenever an equipment field is present.  The table is an object literal, and
  \<open>SEARCH_TEMPLATES[query.type]\<close> also finds the properties that every object inherits from
  \<open>Object.prototype\<close>.  The category \<open>constructor\<close> has no entry in the table, yet the lookup
  yields the function \<open>Object\<close>, which is truthy, so the generic list is not taken, and
  \<open>for (const template of templates)\<close> throws a \<open>TypeError\<close>: no query is returned although the
  fields \<open>type\<close> and \<open>make\<close> are present.  \<open>ingestForEquipment\<close> catches the error and reports
  a failed ingestion.
\<close>

theorem generateSearchQueries_inherited_key_throws:
  "map_of SEARCH_TEMPLATES ''constructor'' = None
   \<and> generateSearchQueries \<lparr> eq_type = ''constructor'', eq_make = Some ''Honda'', eq_model = None,
        eq_year = None, eq_symptom = None, eq_diagnosis = None \<rparr>
      = Inl (TypeError ''templates is not iterable'')
   \<and> ingestForEquipment quiet_world example_clock empty_crawler
        \<lparr> eq_type = ''constructor'', eq_make = Some ''Honda'', eq_model = None,
          eq_year = None, eq_symptom = None, eq_diagnosis = None \<rparr>
      = (\<lparr> ir_success = False, ir_documentsFound = 0, ir_documentsCrawled = 0, ir_chunksCreated = 0,
           ir_storeId = None, ir_errors = [''templates is not iterable''],
           ir_processingTime = 1000 \<rparr>, empty_crawler)"
proof (intro conjI)
  show "map_of SEARCH_TEMPLATES ''constructor'' = None"
    by code_simp
  show g: "generateSearchQueries \<lparr> eq_type = ''constructor'', eq_make = Some ''Honda'', eq_model = None,
        eq_year = None, eq_symptom = None, eq_diagnosis = None \<rparr>
      = Inl (TypeError ''templates is not iterable'')"
    by code_simp
  show "ingestForEquipment quiet_world example_clock empty_crawler
        \<lparr> eq_type = ''constructor'', eq_make = Some ''Honda'', eq_model = None,
          eq_year = None, eq_symptom = None, eq_diagnosis = None \<rparr>
      = (\<lparr> ir_success = False, ir_documentsFound = 0, ir_documentsCrawled = 0, ir_chunksCreated = 0,
           ir_storeId = None, ir_errors = [''templates is not iterable''],
           ir_processingTime = 1000 \<rparr>, empty_crawler)"
    by (simp add: ingestForEquipment_def g failed_ingestion_def error_message_def example_clock_def)
qed

section \<open>Properties of the embedding indexer\<close>

lemma attach_embeddings_without:
  "map without_embedding (attach_embeddings batch embeddings) = map without_embedding batch"
proof -
  have "map without_embedding (attach_embeddings batch embeddings)
      = map (without_embedding \<circ> snd) (zip [0 ..< length batch] batch)"
    by (simp add: attach_embeddings_def without_embedding_def comp_def case_prod_unfold)
  also have "\<dots> = map without_embedding (map snd (zip [0 ..< length batch] batch))"
    by (simp only: map_map)
  also have "map snd (zip [0 ..< length batch] batch) = batch"
    by simp
  finally show ?thesis .
qed

lemma embed_batches_without:
  "embed_batches w chunks acc = Inr out \<Longrightarrow>
     map without_embedding out = map without_embedding acc @ map without_embedding chunks"
proof (induction w chunks acc rule: embed_batches.induct)
  case (1 w embeddedChunks)
  then show ?case by simp
next
  case (2 w c cs embeddedChunks)
  from "2.prems" obtain embeddings where
    e: "generateEmbeddings w DEFAULT_CONFIG (map dc_content (take 10 (c # cs))) = Inr embeddings"
    and r: "embed_batches w (drop 10 (c # cs))
              (embeddedChunks @ attach_embeddings (take 10 (c # cs)) embeddings) = Inr out"
    by (auto split: sum.splits)
  from "2.IH" [OF e r]
  have "map without_embedding out
      = map without_embedding embeddedChunks @ map without_embedding (take 10 (c # cs))
        @ map without_embedding (drop 10 (c # cs))"
    by (simp add: attach_embeddings_without)
  also have "map without_embedding (take 10 (c # cs)) @ map without_embedding (drop 10 (c # cs))
      = map without_embedding (c # cs)"
    by (metis append_take_drop_id map_append)
  finally show ?case .
qed

lemma embedAndStore_result:
  assumes "embedAndStore w store chunks storeId = Inr store'"
  shows "\<exists>embedded. store' = store(storeId \<mapsto> embedded)
           \<and> map without_embedding embedded = map without_embedding chunks"
proof -
  from assms obtain embedded where
    b: "embed_batches w chunks [] = Inr embedded" and s: "store' = store(storeId \<mapsto> embedded)"
    by (auto simp: embedAndStore_def split: sum.splits)
  from embed_batches_without [OF b] s show ?thesis by auto
qed

lemma ingestForEquipment_store:
  "documentStore (snd (ingestForEquipment w clock st query)) = documentStore st
   \<or> (\<exists>chunks storeId. embedAndStore w (documentStore st) chunks storeId
          = Inr (documentStore (snd (ingestForEquipment w clock st query))))"
  by (auto simp: ingestForEquipment_def Let_def split: sum.splits prod.splits)

text \<open>
  Claim C9 says that \<open>embedAndStore\<close> appends the embedded batch to the chunk list the store
  already holds.  It does not: it ends with \<open>this.documentStore.set(storeId, embeddedChunks)\<close>,
  which replaces whatever list the store held.  What holds is the claim with ``appends to'' read
  as ``sets'': after a call that returns, the target store holds exactly the given chunks, each
  with its embedding attached, and every other store is as before; and \<open>ingestForEquipment\<close>,
  the one caller, changes the store collection only by way of \<open>embedAndStore\<close> (the retrieval
  functions return no store at all).
\<close>

theorem embedAndStore_replaces_target_store:
  "(embedAndStore w store chunks storeId = Inr store' \<longrightarrow>
      (\<exists>embedded. store' storeId = Some embedded
          \<and> map without_embedding embedded = map without_embedding chunks)
      \<and> (\<forall>other. other \<noteq> storeId \<longrightarrow> store' other = store other))
   \<and> (documentStore (snd (ingestForEquipment w clock st query)) = documentStore st
      \<or> (\<exists>chunks' storeId'. embedAndStore w (documentStore st) chunks' storeId'
            = Inr (documentStore (snd (ingestForEquipment w clock st query)))))"
proof (intro conjI impI)
  assume "embedAndStore w store chunks storeId = Inr store'"
  from embedAndStore_result [OF this] obtain embedded where
    e: "store' = store(storeId \<mapsto> embedded)"
       "map without_embedding embedded = map without_embedding chunks"
    by blast
  from e show "\<exists>embedded. store' storeId = Some embedded
          \<and> map without_embedding embedded = map without_embedding chunks"
    by simp
  from e(1) show "\<forall>other. other \<noteq> storeId \<longrightarrow> store' other = store other"
    by simp
next
  show "documentStore (snd (ingestForEquipment w clock st query)) = documentStore st
      \<or> (\<exists>chunks' storeId'. embedAndStore w (documentStore st) chunks' storeId'
            = Inr (documentStore (snd (ingestForEquipment w clock st query))))"
    by (rule ingestForEquipment_store)
qed

lemma probe_embed_one:
  "embedAndStore probe_world store [example_chunk text None] storeId
     = Inr (store(storeId \<mapsto> [example_chunk text (Some [1, 0])]))"
  by (simp add: embedAndStore_def generateEmbeddings_def generateEmbeddings_requests_def
      probe_world_def quiet_world_def probe_vector_def attach_embeddings_def js_nth_def
      example_chunk_def)

theorem embedAndStore_replaces_target_store_witness:
  "embedAndStore probe_world (Map.empty(''s'' \<mapsto> [example_chunk ''old'' (Some [0, 1])]))
       [example_chunk ''new'' None] ''s''
     = Inr (Map.empty(''s'' \<mapsto> [example_chunk ''new'' (Some [1, 0])]))
   \<and> (\<exists>embedded. (Map.empty(''s'' \<mapsto> [example_chunk ''new'' (Some [1, 0])])) ''s'' = Some embedded
        \<and> map without_embedding embedded = map without_embedding [example_chunk ''new'' None])"
  using embedAndStore_replaces_target_store
    [of probe_world "Map.empty(''s'' \<mapsto> [example_chunk ''old'' (Some [0, 1])])"
        "[example_chunk ''new'' None]" "''s''"
        "Map.empty(''s'' \<mapsto> [example_chunk ''new'' (Some [1, 0])])"]
  by (simp add: probe_embed_one)

text \<open>The counterexample to C9 as stated: a store that holds the chunk \<open>old\<close> holds only the
  chunk \<open>new\<close> after \<open>embedAndStore\<close> is called on it with \<open>new\<close>.\<close>

theorem embedAndStore_append_counterexample:
  "embedAndStore probe_world (Map.empty(''s'' \<mapsto> [example_chunk ''old'' (Some [0, 1])]))
       [example_chunk ''new'' None] ''s''
     = Inr (Map.empty(''s'' \<mapsto> [example_chunk ''new'' (Some [1, 0])]))
   \<and> example_chunk ''old'' (Some [0, 1]) \<notin> set [example_chunk ''new'' (Some [1, 0])]"
proof
  show "embedAndStore probe_world (Map.empty(''s'' \<mapsto> [example_chunk ''old'' (Some [0, 1])]))
       [example_chunk ''new'' None] ''s''
     = Inr (Map.empty(''s'' \<mapsto> [example_chunk ''new'' (Some [1, 0])]))"
    by (simp add: probe_embed_one)
  show "example_chunk ''old'' (Some [0, 1]) \<notin> set [example_chunk ''new'' (Some [1, 0])]"
    by (simp add: example_chunk_def)
qed

section \<open>Properties of the rounded arithmetic\<close>

subsection \<open>Rounding to an integer\<close>

lemma round_even_cases: "round_even y = \<lfloor>y\<rfloor> \<or> round_even y = \<lfloor>y\<rfloor> + 1"
  by (simp add: round_even_def)

lemma round_even_error: "\<bar>of_int (round_even y) - y\<bar> \<le> 1 / 2"
proof -
  have "of_int \<lfloor>y\<rfloor> \<le> y" "y < of_int \<lfloor>y\<rfloor> + 1" by linarith+
  then show ?thesis
    by (auto simp: round_even_def abs_le_iff)
qed

lemma round_even_of_int: "round_even (of_int m) = m"
  by (simp add: round_even_def)

lemma round_even_near:
  assumes "of_int m - 1 / 2 < y" "y < of_int m + 1 / 2"
  shows "round_even y = m"
proof (cases "of_int m \<le> y")
  case True
  with assms have "\<lfloor>y\<rfloor> = m" by linarith
  with assms show ?thesis by (simp add: round_even_def)
next
  case False
  with assms have f: "\<lfloor>y\<rfloor> = m - 1" by linarith
  with assms have "\<not> y - of_int \<lfloor>y\<rfloor> < 1 / 2" "1 / 2 < y - of_int \<lfloor>y\<rfloor>" by simp_all
  with f show ?thesis by (simp add: round_even_def)
qed

lemma round_even_nonneg: "0 \<le> y \<Longrightarrow> 0 \<le> round_even y"
  using round_even_cases [of y] by (auto simp: zero_le_floor)

lemma round_even_nonpos: "y \<le> 0 \<Longrightarrow> round_even y \<le> 0"
proof (cases "y = 0")
  case True
  then show ?thesis by (simp add: round_even_def)
next
  case False
  assume "y \<le> 0"
  with False have "\<lfloor>y\<rfloor> \<le> - 1" by linarith
  moreover have "round_even y \<le> \<lfloor>y\<rfloor> + 1"
    using round_even_cases [of y] by (elim disjE) simp_all
  ultimately show ?thesis by linarith
qed

lemma round_even_ge_1: "1 \<le> y \<Longrightarrow> 1 \<le> round_even y"
proof -
  assume "1 \<le> y"
  then have "1 \<le> \<lfloor>y\<rfloor>" by linarith
  with round_even_cases [of y] show ?thesis by auto
qed

subsection \<open>The exponent of the last place\<close>

lemma two_powi_pos: "0 < (2::real) powi k"
  by (simp add: zero_less_power_int)

lemma two_powi_add: "(2::real) powi (a + b) = 2 powi a * 2 powi b"
  by (simp add: power_int_add)

lemma two_powi_le: "a \<le> b \<Longrightarrow> (2::real) powi a \<le> 2 powi b"
  by (simp add: power_int_increasing)

lemma two_powi_less_cancel: "(2::real) powi a < 2 powi b \<Longrightarrow> a < b"
proof (rule ccontr)
  assume l: "(2::real) powi a < 2 powi b" and "\<not> a < b"
  then have "b \<le> a" by simp
  from two_powi_le [OF this] l show False by simp
qed

lemma two_powr_int: "2 powr real_of_int k = 2 powi k"
  by (rule powr_real_of_int') simp_all

lemma floor_log2_bounds:
  assumes "x \<noteq> 0"
  shows "2 powi \<lfloor>log 2 \<bar>x\<bar>\<rfloor> \<le> \<bar>x\<bar>" "\<bar>x\<bar> < 2 powi (\<lfloor>log 2 \<bar>x\<bar>\<rfloor> + 1)"
proof -
  from assms have p: "0 < \<bar>x\<bar>" by simp
  have b: "1 < (2::real)" by simp
  have "2 powr real_of_int \<lfloor>log 2 \<bar>x\<bar>\<rfloor> \<le> \<bar>x\<bar> \<and> \<bar>x\<bar> < 2 powr real_of_int (\<lfloor>log 2 \<bar>x\<bar>\<rfloor> + 1)"
    by (rule iffD1 [OF floor_log_eq_powr_iff [OF p b] refl])
  then show "2 powi \<lfloor>log 2 \<bar>x\<bar>\<rfloor> \<le> \<bar>x\<bar>" "\<bar>x\<bar> < 2 powi (\<lfloor>log 2 \<bar>x\<bar>\<rfloor> + 1)"
    by (simp_all only: two_powr_int)
qed

lemma floor_log2_eq:
  assumes "2 powi k \<le> \<bar>x\<bar>" "\<bar>x\<bar> < 2 powi (k + 1)"
  shows "\<lfloor>log 2 \<bar>x\<bar>\<rfloor> = k"
proof -
  from assms(1) two_powi_pos [of k] have p: "0 < \<bar>x\<bar>" by linarith
  have b: "1 < (2::real)" by simp
  from assms have "2 powr real_of_int k \<le> \<bar>x\<bar> \<and> \<bar>x\<bar> < 2 powr real_of_int (k + 1)"
    by (simp only: two_powr_int)
  then show ?thesis by (rule iffD2 [OF floor_log_eq_powr_iff [OF p b]])
qed

lemma double_exponent_ge: "- 1074 \<le> double_exponent x"
  by (simp add: double_exponent_def)

lemma double_exponent_eq:
  assumes "- 1074 \<le> e" "2 powi (e + 52) \<le> \<bar>x\<bar>" "\<bar>x\<bar> < 2 powi (e + 53)"
  shows "double_exponent x = e"
proof -
  have "\<lfloor>log 2 \<bar>x\<bar>\<rfloor> = e + 52"
    using floor_log2_eq [of "e + 52" x] assms by (simp add: add.commute add.left_commute)
  with assms(1) show ?thesis by (simp add: double_exponent_def)
qed

lemma double_exponent_unit_le:
  assumes "2 powi (- 1074) \<le> \<bar>x\<bar>"
  shows "2 powi double_exponent x \<le> \<bar>x\<bar>"
proof -
  from assms two_powi_pos [of "- 1074"] have nz: "x \<noteq> 0" by auto
  have "2 powi (\<lfloor>log 2 \<bar>x\<bar>\<rfloor> - 52) \<le> (2::real) powi \<lfloor>log 2 \<bar>x\<bar>\<rfloor>"
    by (rule two_powi_le) simp
  with floor_log2_bounds(1) [OF nz] have "2 powi (\<lfloor>log 2 \<bar>x\<bar>\<rfloor> - 52) \<le> \<bar>x\<bar>" by linarith
  with assms show ?thesis by (simp add: double_exponent_def max_def)
qed

lemma double_exponent_normal:
  assumes "2 powi (- 1022) \<le> \<bar>x\<bar>"
  shows "2 powi (double_exponent x + 52) \<le> \<bar>x\<bar>"
proof -
  from assms two_powi_pos [of "- 1022"] have nz: "x \<noteq> 0" by auto
  from assms floor_log2_bounds(2) [OF nz]
  have "(2::real) powi (- 1022) < 2 powi (\<lfloor>log 2 \<bar>x\<bar>\<rfloor> + 1)" by linarith
  then have "- 1022 < \<lfloor>log 2 \<bar>x\<bar>\<rfloor> + 1" by (rule two_powi_less_cancel)
  then have "- 1074 \<le> \<lfloor>log 2 \<bar>x\<bar>\<rfloor> - 52" by linarith
  then have "max (\<lfloor>log 2 \<bar>x\<bar>\<rfloor> - 52) (- 1074) = \<lfloor>log 2 \<bar>x\<bar>\<rfloor> - 52" by (rule max_absorb1)
  then have "double_exponent x = \<lfloor>log 2 \<bar>x\<bar>\<rfloor> - 52" by (simp only: double_exponent_def)
  with floor_log2_bounds(1) [OF nz] show ?thesis by simp
qed

lemma double_exponent_le:
  assumes "x \<noteq> 0" "- 1074 \<le> e" "\<bar>x\<bar> < 2 powi (e + 53)"
  shows "double_exponent x \<le> e"
proof -
  from floor_log2_bounds(1) [OF assms(1)] assms(3)
  have "(2::real) powi \<lfloor>log 2 \<bar>x\<bar>\<rfloor> < 2 powi (e + 53)" by linarith
  then have "\<lfloor>log 2 \<bar>x\<bar>\<rfloor> < e + 53" by (rule two_powi_less_cancel)
  with assms(2) show ?thesis by (simp add: double_exponent_def)
qed

subsection \<open>Rounding to a double\<close>

lemma round_double_0: "round_double 0 = 0"
  by (simp add: round_double_def)

lemma round_double_error: "\<bar>round_double x - x\<bar> \<le> 2 powi double_exponent x / 2"
proof (cases "x = 0")
  case True
  then show ?thesis by (simp add: round_double_def two_powi_pos less_imp_le)
next
  case False
  define e where "e = double_exponent x"
  define y where "y = x / 2 powi e"
  have p: "0 < (2::real) powi e" by (rule two_powi_pos)
  have x: "x = y * 2 powi e" using p by (simp add: y_def)
  have rd: "round_double x = of_int (round_even y) * 2 powi e"
    using False by (simp add: round_double_def e_def y_def)
  have "round_double x - x = of_int (round_even y) * 2 powi e - y * 2 powi e"
    using rd x by simp
  then have "round_double x - x = (of_int (round_even y) - y) * 2 powi e"
    by (simp add: algebra_simps)
  then have "\<bar>round_double x - x\<bar> = \<bar>of_int (round_even y) - y\<bar> * 2 powi e"
    using p by (simp add: abs_mult)
  also have "\<dots> \<le> (1 / 2) * 2 powi e"
    using round_even_error [of y] p by (intro mult_right_mono) simp_all
  finally show ?thesis by (simp add: e_def)
qed

lemma round_double_rel:
  assumes "2 powi (- 1022) \<le> \<bar>x\<bar>"
  shows "\<bar>round_double x - x\<bar> \<le> \<bar>x\<bar> / 2 ^ 53"
proof -
  have "(2::real) powi (double_exponent x + 52) = 2 powi double_exponent x * 2 ^ 52"
    by (simp add: two_powi_add)
  with double_exponent_normal [OF assms]
  have "2 powi double_exponent x * 2 ^ 52 \<le> \<bar>x\<bar>" by simp
  then have "2 powi double_exponent x / 2 \<le> \<bar>x\<bar> / 2 ^ 53" by simp
  with round_double_error [of x] show ?thesis by linarith
qed

lemma round_double_factor:
  assumes "2 powi (- 1022) \<le> \<bar>x\<bar>"
  shows "\<exists>d. round_double x = x * d \<and> 1 - 1 / 2 ^ 53 \<le> d \<and> d \<le> 1 + 1 / 2 ^ 53"
proof -
  from assms two_powi_pos [of "- 1022"] have nz: "x \<noteq> 0" by auto
  define d where "d = round_double x / x"
  have r: "round_double x = x * d" using nz by (simp add: d_def)
  have "\<bar>d - 1\<bar> = \<bar>round_double x - x\<bar> / \<bar>x\<bar>"
    using nz by (simp add: d_def diff_divide_distrib flip: abs_divide)
  also have "\<dots> \<le> (\<bar>x\<bar> / 2 ^ 53) / \<bar>x\<bar>"
    using round_double_rel [OF assms] nz by (intro divide_right_mono) simp_all
  also have "\<dots> = 1 / 2 ^ 53" using nz by simp
  finally have "\<bar>d - 1\<bar> \<le> 1 / 2 ^ 53" .
  then have "1 - 1 / 2 ^ 53 \<le> d" "d \<le> 1 + 1 / 2 ^ 53" by linarith+
  with r show ?thesis by blast
qed

lemma round_double_exact:
  assumes "- 1074 \<le> e" "\<bar>m\<bar> < 2 ^ 53"
  shows "round_double (of_int m * 2 powi e) = of_int m * 2 powi e"
proof (cases "m = 0")
  case True
  then show ?thesis by (simp add: round_double_def)
next
  case False
  define x :: real where "x = of_int m * 2 powi e"
  have nz: "x \<noteq> 0" using False by (simp add: x_def power_int_eq_0_iff)
  have "\<bar>x\<bar> = of_int \<bar>m\<bar> * 2 powi e"
    using two_powi_pos [of e] by (simp add: x_def abs_mult)
  also have "\<dots> < 2 ^ 53 * 2 powi e"
  proof -
    from assms(2) have "(of_int \<bar>m\<bar> :: real) < of_int (2 ^ 53)" by (simp only: of_int_less_iff)
    then have "(of_int \<bar>m\<bar> :: real) < 2 ^ 53" by simp
    then show ?thesis using two_powi_pos [of e] by (intro mult_strict_right_mono)
  qed
  also have "\<dots> = 2 powi (e + 53)" by (simp add: two_powi_add)
  finally have "\<bar>x\<bar> < 2 powi (e + 53)" .
  from double_exponent_le [OF nz assms(1) this] have le: "double_exponent x \<le> e" .
  define e' where "e' = double_exponent x"
  have "(2::real) powi e = 2 powi (e' + (e - e'))" by simp
  also have "\<dots> = 2 powi e' * 2 powi (e - e')" by (rule two_powi_add)
  also have "(2::real) powi (e - e') = 2 ^ nat (e - e')"
    using le by (simp add: e'_def power_int_nonneg_exp)
  finally have pe: "(2::real) powi e = 2 powi e' * 2 ^ nat (e - e')" .
  have "x / 2 powi e' = of_int m * 2 ^ nat (e - e')"
    using two_powi_pos [of e'] by (simp add: x_def pe)
  also have "\<dots> = of_int (m * 2 ^ nat (e - e'))" by simp
  finally have "round_even (x / 2 powi e') = m * 2 ^ nat (e - e')"
    by (simp only: round_even_of_int)
  then have "round_double x = of_int (m * 2 ^ nat (e - e')) * 2 powi e'"
    using nz by (simp add: round_double_def e'_def)
  also have "\<dots> = x" by (simp add: x_def pe)
  finally show ?thesis by (simp add: x_def)
qed

lemma round_double_grid: "\<exists>k::int. round_double x = of_int k * 2 powi (- 1074)"
proof (cases "x = 0")
  case True
  then have "round_double x = of_int 0 * 2 powi (- 1074)" by (simp add: round_double_def)
  then show ?thesis by blast
next
  case False
  define e where "e = double_exponent x"
  define m where "m = round_even (x / 2 powi e)"
  have "- 1074 \<le> e" by (simp add: e_def double_exponent_ge)
  have "(2::real) powi e = 2 powi (- 1074 + (e + 1074))" by simp
  also have "\<dots> = 2 powi (- 1074) * 2 powi (e + 1074)" by (rule two_powi_add)
  also have "(2::real) powi (e + 1074) = 2 ^ nat (e + 1074)"
    using \<open>- 1074 \<le> e\<close> by (simp add: power_int_nonneg_exp)
  finally have pe: "(2::real) powi e = 2 powi (- 1074) * 2 ^ nat (e + 1074)" .
  have "round_double x = of_int m * 2 powi e"
    using False by (simp add: round_double_def e_def m_def)
  also have "\<dots> = of_int (m * 2 ^ nat (e + 1074)) * 2 powi (- 1074)"
    by (simp add: pe)
  finally show ?thesis by blast
qed

lemma round_double_pos:
  assumes "2 powi (- 1074) \<le> x"
  shows "0 < round_double x"
proof -
  from assms two_powi_pos [of "- 1074"] have p: "0 < x" by linarith
  define e where "e = double_exponent x"
  from assms p have "2 powi (- 1074) \<le> \<bar>x\<bar>" by simp
  from double_exponent_unit_le [OF this] p have "2 powi e \<le> x" by (simp add: e_def)
  then have "1 \<le> x / 2 powi e" using two_powi_pos [of e] by (simp add: le_divide_eq)
  then have "1 \<le> round_even (x / 2 powi e)" by (rule round_even_ge_1)
  then have "0 < (of_int (round_even (x / 2 powi e)) :: real)" by simp
  then have "0 < of_int (round_even (x / 2 powi e)) * (2::real) powi e"
    using two_powi_pos [of e] by (intro mult_pos_pos)
  with p show ?thesis by (simp add: round_double_def e_def)
qed

lemma round_double_nonneg:
  assumes "0 \<le> x"
  shows "0 \<le> round_double x"
proof (cases "x = 0")
  case True
  then show ?thesis by (simp add: round_double_def)
next
  case False
  define e where "e = double_exponent x"
  from assms have "0 \<le> x / 2 powi e" using two_powi_pos [of e] by simp
  then have "0 \<le> round_even (x / 2 powi e)" by (rule round_even_nonneg)
  then have "0 \<le> (of_int (round_even (x / 2 powi e)) :: real)" by simp
  then have "0 \<le> of_int (round_even (x / 2 powi e)) * (2::real) powi e"
    using two_powi_pos [of e] by (intro mult_nonneg_nonneg) simp_all
  with False show ?thesis by (simp add: round_double_def e_def)
qed

lemma round_double_nonpos:
  assumes "x \<le> 0"
  shows "round_double x \<le> 0"
proof (cases "x = 0")
  case True
  then show ?thesis by (simp add: round_double_def)
next
  case False
  define e where "e = double_exponent x"
  from assms have "x / 2 powi e \<le> 0" using two_powi_pos [of e] by (simp add: divide_le_0_iff)
  then have "round_even (x / 2 powi e) \<le> 0" by (rule round_even_nonpos)
  then have "(of_int (round_even (x / 2 powi e)) :: real) \<le> 0" by simp
  then have "of_int (round_even (x / 2 powi e)) * (2::real) powi e \<le> 0"
    using two_powi_pos [of e] by (intro mult_nonpos_nonneg) simp_all
  with False show ?thesis by (simp add: round_double_def e_def)
qed

subsection \<open>The rounded operations\<close>

lemma overflow_bound_pos: "0 < overflow_bound"
  by (simp add: overflow_bound_def)

lemma overflow_bound_ge: "2 ^ 1023 < overflow_bound"
  by (simp add: overflow_bound_def)

lemma fl_finite: "\<bar>x\<bar> < overflow_bound \<Longrightarrow> fl x = Num (round_double x)"
  by (simp add: fl_def abs_less_iff)

lemma fl_overflow: "overflow_bound \<le> x \<Longrightarrow> fl x = PosInfinity"
  by (simp add: fl_def)

lemma fl_0: "fl 0 = Num 0"
  using overflow_bound_pos by (simp add: fl_finite round_double_0)

lemma fl_exact:
  assumes "- 1074 \<le> e" "\<bar>m\<bar> < 2 ^ 53" "\<bar>of_int m * 2 powi e\<bar> < overflow_bound"
  shows "fl (of_int m * 2 powi e) = Num (of_int m * 2 powi e)"
  using assms by (simp only: fl_finite round_double_exact)

lemma fl_int: "\<bar>m\<bar> < 2 ^ 53 \<Longrightarrow> fl (of_int m) = Num (of_int m)"
proof -
  assume m: "\<bar>m\<bar> < 2 ^ 53"
  then have "(of_int \<bar>m\<bar> :: real) < of_int (2 ^ 53)" by (simp only: of_int_less_iff)
  then have "\<bar>of_int m :: real\<bar> < 2 ^ 53" by simp
  also have "(2::real) ^ 53 < 2 ^ 1023" by simp
  finally have "\<bar>of_int m * 2 powi 0 :: real\<bar> < overflow_bound"
    using overflow_bound_ge by simp
  from fl_exact [OF _ m this] show ?thesis by simp
qed

lemma fl_1: "fl 1 = Num 1"
  using fl_int [of 1] by simp

lemma fl_minus_1: "fl (- 1) = Num (- 1)"
  using fl_int [of "- 1"] by simp

lemma fl_pow2: 
  assumes "k \<le> 1023"
  shows "fl (2 ^ k) = Num (2 ^ k)" "fl (- (2 ^ k)) = Num (- (2 ^ k))"
proof -
  have "(2::real) ^ k \<le> 2 ^ 1023" using assms by (intro power_increasing) simp_all
  with overflow_bound_ge have b: "(2::real) ^ k < overflow_bound" by linarith
  have p: "(2::real) powi int k = 2 ^ k" by (simp add: power_int_of_nat)
  have "\<bar>of_int 1 * 2 powi int k :: real\<bar> < overflow_bound" using b by (simp add: p)
  from fl_exact [OF _ _ this] show "fl (2 ^ k) = Num (2 ^ k)" by (simp add: p)
  have "\<bar>of_int (- 1) * 2 powi int k :: real\<bar> < overflow_bound" using b by (simp add: p)
  from fl_exact [OF _ _ this] show "fl (- (2 ^ k)) = Num (- (2 ^ k))" by (simp add: p)
qed

lemma round_double_tiny:
  assumes "\<bar>x\<bar> < 2 powi (- 1075)"
  shows "round_double x = 0"
proof (cases "x = 0")
  case True
  then show ?thesis by (simp add: round_double_def)
next
  case False
  have "(2::real) powi (- 1075) \<le> 2 powi (- 1022)" by (rule two_powi_le) simp
  with assms floor_log2_bounds(1) [OF False]
  have "(2::real) powi \<lfloor>log 2 \<bar>x\<bar>\<rfloor> < 2 powi (- 1022)" by linarith
  then have "\<lfloor>log 2 \<bar>x\<bar>\<rfloor> < - 1022" by (rule two_powi_less_cancel)
  then have "\<lfloor>log 2 \<bar>x\<bar>\<rfloor> - 52 \<le> - 1074" by linarith
  then have "max (\<lfloor>log 2 \<bar>x\<bar>\<rfloor> - 52) (- 1074) = - 1074" by (rule max_absorb2)
  then have e: "double_exponent x = - 1074" by (simp only: double_exponent_def)
  have "(2::real) powi (- 1075) = 2 powi (- 1074 + - 1)" by simp
  also have "\<dots> = 2 powi (- 1074) * 2 powi (- 1)" by (rule two_powi_add)
  finally have h: "(2::real) powi (- 1075) = 2 powi (- 1074) * (1 / 2)" by simp
  have "\<bar>x / 2 powi (- 1074)\<bar> = \<bar>x\<bar> / 2 powi (- 1074)"
    using two_powi_pos [of "- 1074"] by (simp add: abs_divide)
  also have "\<dots> < 1 / 2"
    using assms two_powi_pos [of "- 1074"] unfolding h by (simp add: divide_less_eq)
  finally have "\<bar>x / 2 powi (- 1074)\<bar> < 1 / 2" .
  then have "round_even (x / 2 powi (- 1074)) = 0"
    by (intro round_even_near) (simp_all add: abs_less_iff)
  with False e show ?thesis by (simp only: round_double_def) simp
qed

lemma fl_tiny: "\<bar>x\<bar> < 2 powi (- 1075) \<Longrightarrow> fl x = Num 0"
proof -
  assume a: "\<bar>x\<bar> < 2 powi (- 1075)"
  have "(2::real) powi (- 1075) \<le> 2 powi 0" by (rule two_powi_le) simp
  with a overflow_bound_ge have "\<bar>x\<bar> < overflow_bound" by simp
  with a show ?thesis by (simp add: fl_finite round_double_tiny)
qed

lemma round_double_crude: "\<bar>round_double x\<bar> \<le> 2 * \<bar>x\<bar> + 1"
proof (cases "x = 0")
  case True
  then show ?thesis by (simp add: round_double_def)
next
  case False
  have "(2::real) powi (\<lfloor>log 2 \<bar>x\<bar>\<rfloor> - 52) \<le> 2 powi \<lfloor>log 2 \<bar>x\<bar>\<rfloor>" by (rule two_powi_le) simp
  with floor_log2_bounds(1) [OF False] have a: "2 powi (\<lfloor>log 2 \<bar>x\<bar>\<rfloor> - 52) \<le> \<bar>x\<bar> + 1" by linarith
  have "(2::real) powi (- 1074) \<le> 2 powi 0" by (rule two_powi_le) simp
  then have b: "(2::real) powi (- 1074) \<le> \<bar>x\<bar> + 1" by simp
  from a b have "2 powi double_exponent x \<le> \<bar>x\<bar> + 1"
    by (simp add: double_exponent_def max_def)
  with round_double_error [of x] show ?thesis by linarith
qed

section \<open>Properties of the cosine similarities\<close>

subsection \<open>The loop of the cosine similarities\<close>

lemma similarity_loop_components:
  "length a = length b \<Longrightarrow>
     similarity_loop a b (d, na, nb) = (dot_loop a b d, norm_loop a na, norm_loop b nb)"
  by (induction a b arbitrary: d na nb rule: list_induct2) simp_all

lemma dot_loop_self: "dot_loop v v acc = norm_loop v acc"
  by (induction v arbitrary: acc) simp_all

lemma cosineSimilarity_eq:
  assumes "length a = length b" "a \<noteq> []"
  shows "cosineSimilarity a b =
     (if js_mul (js_sqrt (squared_norm a)) (js_sqrt (squared_norm b)) = Num 0 then Num 0
      else js_div (dot_loop a b (Num 0)) (js_mul (js_sqrt (squared_norm a)) (js_sqrt (squared_norm b))))"
  using assms by (auto simp: cosineSimilarity_def similarity_loop_components squared_norm_def Let_def)

lemma RAG_cosineSimilarity_eq:
  assumes "length a = length b"
  shows "RAG_cosineSimilarity a b =
     Inr (js_div (dot_loop a b (Num 0)) (js_mul (js_sqrt (squared_norm a)) (js_sqrt (squared_norm b))))"
  using assms by (simp add: RAG_cosineSimilarity_def similarity_loop_components squared_norm_def)

lemma fl_ok: 
  assumes "0 \<le> x"
  shows "norm_ok (fl x)"
proof (cases "overflow_bound \<le> x")
  case True
  then show ?thesis by (simp add: fl_overflow)
next
  case False
  with assms have a: "\<bar>x\<bar> < overflow_bound" by simp
  have "round_double x \<le> 2 * \<bar>x\<bar> + 1" using round_double_crude [of x] by linarith
  with a have "round_double x \<le> 2 * overflow_bound + 1" by linarith
  with round_double_nonneg [OF assms] a show ?thesis by (simp add: fl_finite)
qed

lemma js_add_ok: "norm_ok a \<Longrightarrow> norm_ok b \<Longrightarrow> norm_ok (js_add a b)"
  by (cases a; cases b) (simp_all add: fl_ok)

lemma norm_loop_ok: "norm_ok acc \<Longrightarrow> norm_ok (norm_loop v acc)"
proof (induction v arbitrary: acc)
  case Nil
  then show ?case by simp
next
  case (Cons x xs)
  have "norm_ok (js_mul (Num x) (Num x))" by (simp add: fl_ok)
  with Cons.prems have "norm_ok (js_add acc (js_mul (Num x) (Num x)))" by (rule js_add_ok)
  then show ?case using Cons.IH by simp
qed

lemma squared_norm_ok: "norm_ok (squared_norm v)"
  using overflow_bound_pos by (simp add: squared_norm_def norm_loop_ok)

lemma js_sqrt_finite:
  assumes "norm_ok (Num n)"
  shows "\<exists>s. js_sqrt (Num n) = Num s"
proof -
  from assms have n: "0 \<le> n" "n \<le> 2 * overflow_bound + 1" by simp_all
  have "2 * overflow_bound + 1 < overflow_bound\<^sup>2"
    by (simp add: overflow_bound_def power2_eq_square)
  with n have "n < overflow_bound\<^sup>2" by linarith
  then have "sqrt n < overflow_bound"
    using overflow_bound_pos by (intro real_less_lsqrt) simp_all
  then have "\<bar>sqrt n\<bar> < overflow_bound" using n by simp
  then show ?thesis using n by (simp add: fl_finite)
qed

lemma norm_loop_zero: "\<forall>x \<in> set v. x = 0 \<Longrightarrow> norm_loop v (Num 0) = Num 0"
  by (induction v) (simp_all add: fl_0)

lemma dot_loop_zero_right:
  "length a = length b \<Longrightarrow> \<forall>y \<in> set b. y = 0 \<Longrightarrow> dot_loop a b (Num 0) = Num 0"
  by (induction a b rule: list_induct2) (simp_all add: fl_0)

lemma dot_loop_zero_left:
  "length a = length b \<Longrightarrow> \<forall>x \<in> set a. x = 0 \<Longrightarrow> dot_loop a b (Num 0) = Num 0"
  by (induction a b rule: list_induct2) (simp_all add: fl_0)

lemma cosineSimilarity_zero_right:
  assumes "length a = length b" "\<forall>y \<in> set b. y = 0" "squared_norm a = Num n"
  shows "cosineSimilarity a b = Num 0"
proof (cases "a = []")
  case True
  then show ?thesis by (simp add: cosineSimilarity_def)
next
  case False
  from squared_norm_ok [of a] assms(3) have "norm_ok (Num n)" by simp
  from js_sqrt_finite [OF this] obtain s where s: "js_sqrt (Num n) = Num s" by blast
  have b: "squared_norm b = Num 0" using assms(2) by (simp add: squared_norm_def norm_loop_zero)
  have "js_mul (js_sqrt (squared_norm a)) (js_sqrt (squared_norm b)) = js_mul (Num s) (js_sqrt (Num 0))"
    by (simp only: assms(3) s b)
  also have "\<dots> = Num 0" by (simp add: fl_0)
  finally have "js_mul (js_sqrt (squared_norm a)) (js_sqrt (squared_norm b)) = Num 0" .
  then show ?thesis by (simp add: cosineSimilarity_eq [OF assms(1) False])
qed

lemma cosineSimilarity_zero_left:
  assumes "length a = length b" "\<forall>x \<in> set a. x = 0" "squared_norm b = Num n"
  shows "cosineSimilarity a b = Num 0"
proof (cases "a = []")
  case True
  then show ?thesis by (simp add: cosineSimilarity_def)
next
  case False
  from squared_norm_ok [of b] assms(3) have "norm_ok (Num n)" by simp
  from js_sqrt_finite [OF this] obtain s where s: "js_sqrt (Num n) = Num s" by blast
  have a: "squared_norm a = Num 0" using assms(2) by (simp add: squared_norm_def norm_loop_zero)
  have "js_mul (js_sqrt (squared_norm a)) (js_sqrt (squared_norm b)) = js_mul (js_sqrt (Num 0)) (Num s)"
    by (simp only: assms(3) s a)
  also have "\<dots> = Num 0" by (simp add: fl_0)
  finally have "js_mul (js_sqrt (squared_norm a)) (js_sqrt (squared_norm b)) = Num 0" .
  then show ?thesis by (simp add: cosineSimilarity_eq [OF assms(1) False])
qed

lemma small_is_finite: "\<bar>x\<bar> \<le> 2 ^ 1023 \<Longrightarrow> fl x = Num (round_double x)"
  using overflow_bound_ge by (intro fl_finite) linarith

lemma cube_bounds:
  fixes a b c u :: real
  assumes "0 \<le> u" "u \<le> 1"
    and "1 - u \<le> a" "a \<le> 1 + u" "1 - u \<le> b" "b \<le> 1 + u" "1 - u \<le> c" "c \<le> 1 + u"
  shows "(1 - u) ^ 3 \<le> a * b * c" "a * b * c \<le> (1 + u) ^ 3"
proof -
  from assms have nn: "0 \<le> 1 - u" "0 \<le> a" "0 \<le> b" "0 \<le> c" by linarith+
  have "(1 - u) * (1 - u) \<le> a * b" using assms nn by (intro mult_mono) simp_all
  moreover have "0 \<le> a * b" using nn by simp
  ultimately have "(1 - u) * (1 - u) * (1 - u) \<le> a * b * c"
    using assms nn by (intro mult_mono) simp_all
  then show "(1 - u) ^ 3 \<le> a * b * c" by (simp add: power3_eq_cube)
  have "a * b \<le> (1 + u) * (1 + u)" using assms nn by (intro mult_mono) simp_all
  then have "a * b * c \<le> (1 + u) * (1 + u) * (1 + u)"
    using assms nn by (intro mult_mono) simp_all
  then show "a * b * c \<le> (1 + u) ^ 3" by (simp add: power3_eq_cube)
qed

lemma self_quotient:
  assumes lo: "2 powi (- 1020) \<le> n" and hi: "n \<le> 2 powi 1020"
  shows "\<exists>p q. js_mul (js_sqrt (Num n)) (js_sqrt (Num n)) = Num p \<and> p \<noteq> 0
           \<and> js_div (Num n) (Num p) = Num q \<and> \<bar>q - 1\<bar> \<le> 1 / 2 ^ 50"
proof -
  define u :: real where "u = 1 / 2 ^ 53"
  have u: "0 \<le> u" "u \<le> 1" by (simp_all add: u_def)
  have lo3: "1 / 2 \<le> (1 - u) ^ 3" and hi3: "(1 + u) ^ 3 \<le> 2"
    and lo2: "1 / 2 \<le> (1 - u) * (1 - u)" and hi2: "(1 + u) * (1 + u) \<le> 2"
    and up: "1 + u \<le> (1 + 1 / 2 ^ 50) * (1 - u) ^ 3"
    and dn: "(1 - 1 / 2 ^ 50) * (1 + u) ^ 3 \<le> 1 - u"
    by (simp_all add: u_def power3_eq_cube)
  from lo two_powi_pos [of "- 1020"] have npos: "0 < n" by linarith
  define r where "r = sqrt n"
  have rpos: "0 < r" using npos by (simp add: r_def)
  have rr: "r * r = n" using npos by (simp add: r_def)
  have "((2::real) powi (- 510))\<^sup>2 = 2 powi (- 510 + - 510)"
    unfolding power2_eq_square by (rule two_powi_add [symmetric])
  with lo have "((2::real) powi (- 510))\<^sup>2 \<le> n" by simp
  then have rlo: "2 powi (- 510) \<le> r" unfolding r_def by (rule real_le_rsqrt)
  have "((2::real) powi 510)\<^sup>2 = 2 powi (510 + 510)"
    unfolding power2_eq_square by (rule two_powi_add [symmetric])
  with hi have "n \<le> ((2::real) powi 510)\<^sup>2" by simp
  then have rhi: "r \<le> 2 powi 510" unfolding r_def
    using two_powi_pos [of 510] by (intro real_le_lsqrt) simp_all
  have "(2::real) powi (- 1022) \<le> 2 powi (- 510)" by (rule two_powi_le) simp
  with rlo rpos have "2 powi (- 1022) \<le> \<bar>r\<bar>" by simp
  from round_double_factor [OF this] obtain a where
    a: "round_double r = r * a" "1 - u \<le> a" "a \<le> 1 + u" unfolding u_def by blast
  have "(2::real) powi 510 \<le> 2 powi 1023" by (rule two_powi_le) simp
  with rhi rpos have "\<bar>r\<bar> \<le> 2 ^ 1023" by simp
  then have "fl r = Num (r * a)" by (simp only: small_is_finite a(1))
  then have s: "js_sqrt (Num n) = Num (r * a)" using npos by (simp add: r_def)
  define t where "t = (r * a) * (r * a)"
  have t: "t = n * (a * a)" by (simp add: t_def rr [symmetric])
  have apos: "0 < a" using a(2) u lo2 by (cases "a \<le> 0") (auto simp: u_def)
  have aalo: "1 / 2 \<le> a * a"
  proof -
    have "(1 - u) * (1 - u) \<le> a * a" using a u by (intro mult_mono) (simp_all add: u_def)
    with lo2 show ?thesis by linarith
  qed
  have aahi: "a * a \<le> 2"
  proof -
    have "a * a \<le> (1 + u) * (1 + u)" using a apos by (intro mult_mono) simp_all
    with hi2 show ?thesis by linarith
  qed
  have tpos: "0 < t" using npos apos by (simp add: t)
  have "n * (1 / 2) \<le> t" unfolding t using npos aalo by (intro mult_left_mono) simp_all
  moreover have "(2::real) powi (- 1022) \<le> 2 powi (- 1020) * (1 / 2)"
  proof -
    have "(2::real) powi (- 1020) = 2 powi (- 1022 + 2)" by simp
    also have "\<dots> = 2 powi (- 1022) * 2 powi 2" by (rule two_powi_add)
    finally show ?thesis by simp
  qed
  ultimately have "2 powi (- 1022) \<le> \<bar>t\<bar>" using lo tpos by simp
  from round_double_factor [OF this] obtain b where
    b: "round_double t = t * b" "1 - u \<le> b" "b \<le> 1 + u" unfolding u_def by blast
  have "t \<le> n * 2" unfolding t using npos aahi by (intro mult_left_mono) simp_all
  moreover have "(2::real) powi 1020 * 2 \<le> 2 powi 1023"
  proof -
    have "(2::real) powi 1023 = 2 powi (1020 + 3)" by simp
    also have "\<dots> = 2 powi 1020 * 2 powi 3" by (rule two_powi_add)
    finally show ?thesis using two_powi_pos [of 1020] by simp
  qed
  ultimately have "\<bar>t\<bar> \<le> 2 ^ 1023" using hi tpos by simp
  then have "fl t = Num (t * b)" by (simp only: small_is_finite b(1))
  then have "js_mul (Num (r * a)) (Num (r * a)) = Num (t * b)"
    by (simp add: t_def)
  then have p: "js_mul (js_sqrt (Num n)) (js_sqrt (Num n)) = Num (t * b)"
    by (simp only: s)
  have bpos: "0 < b" using b(2) lo2 u by (cases "b \<le> 0") (auto simp: u_def)
  define d where "d = a * a * b"
  have dpos: "0 < d" using apos bpos by (simp add: d_def)
  have tb: "t * b = n * d" by (simp add: t d_def)
  have pnz: "t * b \<noteq> 0" using tpos bpos by simp
  define z where "z = n / (t * b)"
  have z: "z = 1 / d" using npos dpos by (simp add: z_def tb)
  from cube_bounds [OF u a(2,3) a(2,3) b(2,3)]
  have dlo: "(1 - u) ^ 3 \<le> d" and dhi: "d \<le> (1 + u) ^ 3" by (simp_all add: d_def)
  have zpos: "0 < z" using dpos by (simp add: z)
  have zlo: "1 / 2 \<le> z" unfolding z using dhi hi3 dpos by (simp add: le_divide_eq)
  have zhi: "z \<le> 2" unfolding z using dlo lo3 dpos by (simp add: divide_le_eq) 
  have "(2::real) powi (- 1022) \<le> 2 powi (- 1)" by (rule two_powi_le) simp
  with zlo zpos have "2 powi (- 1022) \<le> \<bar>z\<bar>" by simp
  from round_double_factor [OF this] obtain c where
    c: "round_double z = z * c" "1 - u \<le> c" "c \<le> 1 + u" unfolding u_def by blast
  have "\<bar>z\<bar> \<le> 2 ^ 1023" using zhi zpos by simp
  then have "fl z = Num (z * c)" by (simp only: small_is_finite c(1))
  then have q: "js_div (Num n) (Num (t * b)) = Num (z * c)"
    using pnz by (simp add: z_def)
  have zc: "z * c = c / d" by (simp add: z)
  have l3: "0 < (1 - u) ^ 3" using lo3 by linarith
  have "c / d \<le> (1 + u) / (1 - u) ^ 3"
    using c dlo l3 u by (intro frac_le) (simp_all add: u_def)
  also have "\<dots> \<le> 1 + 1 / 2 ^ 50" using up l3 by (simp add: divide_le_eq)
  finally have upper: "z * c \<le> 1 + 1 / 2 ^ 50" by (simp only: zc)
  have h3: "0 < (1 + u) ^ 3" using u by simp
  have "1 - 1 / 2 ^ 50 \<le> (1 - u) / (1 + u) ^ 3" using dn h3 by (simp add: le_divide_eq)
  also have "\<dots> \<le> c / d"
    using c dhi dpos u by (intro frac_le) simp_all
  finally have lower: "1 - 1 / 2 ^ 50 \<le> z * c" by (simp only: zc)
  from upper lower have "\<bar>z * c - 1\<bar> \<le> 1 / 2 ^ 50" by linarith
  with p q pnz show ?thesis by blast
qed

text \<open>
  Claim C4 says that both cosine similarities return 1 within tolerance for a vector of
  non-zero norm against itself, and 0 against a zero-norm or empty vector, never \<open>NaN\<close> and
  never an error.  With the arithmetic of doubles, what holds is this.
  \<open>DocumentCrawlerService.cosineSimilarity\<close> has no \<open>throw\<close>; it returns 0 when the lengths
  differ or the vectors are empty, and 0 against a vector of zeros when the squared norm that
  the loop computes for the other vector is finite.  \<open>RAGService.cosineSimilarity\<close> throws when
  the lengths differ.  For a vector whose computed squared norm lies between \<open>2\<^sup>-\<^sup>1\<^sup>0\<^sup>2\<^sup>0\<close> and
  \<open>2\<^sup>1\<^sup>0\<^sup>2\<^sup>0\<close>, both functions return the same number for the vector against itself, and it
  differs from 1 by at most \<open>2\<^sup>-\<^sup>5\<^sup>0\<close>.
\<close>

theorem cosine_similarity_properties:
  "(length a \<noteq> length b \<or> a = [] \<longrightarrow> cosineSimilarity a b = Num 0)
   \<and> (length a = length b \<and> (\<forall>y \<in> set b. y = 0) \<and> squared_norm a = Num n \<longrightarrow>
        cosineSimilarity a b = Num 0)
   \<and> (length a = length b \<and> (\<forall>x \<in> set a. x = 0) \<and> squared_norm b = Num n \<longrightarrow>
        cosineSimilarity a b = Num 0)
   \<and> (length a \<noteq> length b \<longrightarrow>
        RAG_cosineSimilarity a b = Inl (Error ''Vectors must have same length''))
   \<and> (squared_norm v = Num m \<and> 1 / 2 ^ 1020 \<le> m \<and> m \<le> 2 ^ 1020 \<longrightarrow>
        (\<exists>q. cosineSimilarity v v = Num q \<and> RAG_cosineSimilarity v v = Inr (Num q)
             \<and> \<bar>q - 1\<bar> \<le> 1 / 2 ^ 50))"
proof (intro conjI impI)
  assume "length a \<noteq> length b \<or> a = []"
  then show "cosineSimilarity a b = Num 0" by (auto simp: cosineSimilarity_def)
next
  assume "length a = length b \<and> (\<forall>y \<in> set b. y = 0) \<and> squared_norm a = Num n"
  then show "cosineSimilarity a b = Num 0" by (intro cosineSimilarity_zero_right) simp_all
next
  assume "length a = length b \<and> (\<forall>x \<in> set a. x = 0) \<and> squared_norm b = Num n"
  then show "cosineSimilarity a b = Num 0" by (intro cosineSimilarity_zero_left) simp_all
next
  assume "length a \<noteq> length b"
  then show "RAG_cosineSimilarity a b = Inl (Error ''Vectors must have same length'')"
    by (simp add: RAG_cosineSimilarity_def)
next
  assume h: "squared_norm v = Num m \<and> 1 / 2 ^ 1020 \<le> m \<and> m \<le> 2 ^ 1020"
  have "(2::real) powi (- 1020) = 1 / 2 ^ 1020" by (simp add: power_int_minus_divide)
  with h have lo: "2 powi (- 1020) \<le> m" by simp
  from h have hi: "m \<le> 2 powi 1020" by simp
  from self_quotient [OF lo hi] obtain p q where
    pq: "js_mul (js_sqrt (Num m)) (js_sqrt (Num m)) = Num p" "p \<noteq> 0"
      "js_div (Num m) (Num p) = Num q" "\<bar>q - 1\<bar> \<le> 1 / 2 ^ 50"
    by blast
  from h have ne: "v \<noteq> []" by (auto simp: squared_norm_def)
  have d: "dot_loop v v (Num 0) = Num m" using h by (simp add: dot_loop_self squared_norm_def)
  have n: "squared_norm v = Num m" using h by simp
  have "cosineSimilarity v v = Num q"
    unfolding cosineSimilarity_eq [OF refl ne] n d pq(1) using pq(2,3) by simp
  moreover have "RAG_cosineSimilarity v v = Inr (Num q)"
    unfolding RAG_cosineSimilarity_eq [OF refl] n d pq(1) using pq(3) by simp
  ultimately show "\<exists>q. cosineSimilarity v v = Num q \<and> RAG_cosineSimilarity v v = Inr (Num q)
             \<and> \<bar>q - 1\<bar> \<le> 1 / 2 ^ 50"
    using pq(4) by blast
qed

text \<open>The instance of the witness: the vector \<open>(1)\<close>.\<close>

lemma squared_norm_unit: "squared_norm [1] = Num 1"
  by (simp add: squared_norm_def fl_0 fl_1)

lemma cosineSimilarity_unit: "cosineSimilarity [1] [1] = Num 1"
  by (simp add: cosineSimilarity_def fl_0 fl_1)

lemma RAG_cosineSimilarity_unit: "RAG_cosineSimilarity [1] [1] = Inr (Num 1)"
  by (simp add: RAG_cosineSimilarity_def fl_0 fl_1)

theorem cosine_similarity_properties_witness:
  "squared_norm [1] = Num 1
   \<and> cosineSimilarity [1] [0] = Num 0
   \<and> cosineSimilarity [0] [1] = Num 0
   \<and> cosineSimilarity [1] [] = Num 0
   \<and> RAG_cosineSimilarity [1] [] = Inl (Error ''Vectors must have same length'')
   \<and> cosineSimilarity [1] [1] = Num 1
   \<and> RAG_cosineSimilarity [1] [1] = Inr (Num 1)"
  using cosine_similarity_properties [of "[1]" "[0]" 1 "[1]" 1]
    cosine_similarity_properties [of "[0]" "[1]" 1 "[1]" 1]
    cosine_similarity_properties [of "[1]" "[]" 1 "[1]" 1]
  by (simp add: squared_norm_unit cosineSimilarity_unit RAG_cosineSimilarity_unit)

lemma fl_huge: "fl (2 ^ 600 * 2 ^ 600) = PosInfinity"
  by (rule fl_overflow) (simp add: overflow_bound_def)

lemma fl_minute: "fl (1 / 2 ^ 600 * (1 / 2 ^ 600)) = Num 0"
  by (rule fl_tiny) (simp add: power_int_minus_divide)

text \<open>The counterexamples to C4 as stated.  Against the empty vector
  \<open>RAGService.cosineSimilarity\<close> throws, and against a vector of zeros of the same length it
  divides 0 by 0.  In \<open>DocumentCrawlerService.cosineSimilarity\<close> the squared norm of
  \<open>(2\<^sup>6\<^sup>0\<^sup>0)\<close> overflows to \<open>Infinity\<close>, so the result is \<open>NaN\<close> against a vector of zeros and
  against the vector itself; the squared norm of \<open>(2\<^sup>-\<^sup>6\<^sup>0\<^sup>0)\<close> underflows to 0, so the vector
  scores 0 against itself.\<close>

theorem cosine_similarity_counterexample:
  "RAG_cosineSimilarity [1] [] = Inl (Error ''Vectors must have same length'')
   \<and> RAG_cosineSimilarity [1] [0] = Inr NaN
   \<and> cosineSimilarity [2 ^ 600] [0] = NaN
   \<and> cosineSimilarity [2 ^ 600] [2 ^ 600] = NaN
   \<and> cosineSimilarity [1 / 2 ^ 600] [1 / 2 ^ 600] = Num 0"
proof (intro conjI)
  show "RAG_cosineSimilarity [1] [] = Inl (Error ''Vectors must have same length'')"
    by (simp add: RAG_cosineSimilarity_def)
  show "RAG_cosineSimilarity [1] [0] = Inr NaN"
    by (simp add: RAG_cosineSimilarity_def fl_0 fl_1)
  have l: "similarity_loop [2 ^ 600] [0] (Num 0, Num 0, Num 0) = (Num 0, PosInfinity, Num 0)"
    using fl_huge by (simp add: fl_0)
  show "cosineSimilarity [2 ^ 600] [0] = NaN"
    unfolding cosineSimilarity_def l by (simp add: fl_0)
  have l: "similarity_loop [2 ^ 600] [2 ^ 600] (Num 0, Num 0, Num 0)
      = (PosInfinity, PosInfinity, PosInfinity)"
    using fl_huge by (simp add: fl_0)
  show "cosineSimilarity [2 ^ 600] [2 ^ 600] = NaN"
    unfolding cosineSimilarity_def l by simp
  have l: "similarity_loop [1 / 2 ^ 600] [1 / 2 ^ 600] (Num 0, Num 0, Num 0) = (Num 0, Num 0, Num 0)"
    using fl_minute by (simp add: fl_0)
  show "cosineSimilarity [1 / 2 ^ 600] [1 / 2 ^ 600] = Num 0"
    unfolding cosineSimilarity_def l by (simp add: fl_0)
qed

section \<open>Properties of the retriever\<close>

subsection \<open>The comparison of two scores\<close>

lemma is_double_0: "is_double 0"
  unfolding is_double_def by (rule exI [of _ 0]) simp

lemma representable_fl: "representable (fl x)"
proof -
  have "is_double (round_double x)" unfolding is_double_def by (rule round_double_grid)
  then show ?thesis by (simp add: fl_def)
qed

lemma representable_js_div: "representable (js_div a b)"
  by (cases a; cases b) (simp_all add: representable_fl is_double_0)

lemma representable_cosineSimilarity: "representable (cosineSimilarity a b)"
  by (simp add: cosineSimilarity_def Let_def representable_js_div is_double_0 split: prod.split)

lemma fl_positive_iff:
  assumes "is_double x" "is_double y"
  shows "is_positive (fl (y - x)) \<longleftrightarrow> x < y"
proof (cases "x < y")
  case True
  define g :: real where "g = 2 powi (- 1074)"
  from assms obtain kx ky :: int where
    k: "x = of_int kx * g" "y = of_int ky * g"
    unfolding is_double_def g_def by blast
  have g: "0 < g" unfolding g_def by (rule two_powi_pos)
  from True have "of_int kx * g < of_int ky * g"
    by (simp only: k)
  with g have "(of_int kx :: real) < of_int ky" by (simp only: mult_less_cancel_right_pos)
  then have "kx < ky" by simp
  then have "1 \<le> ky - kx" by simp
  then have "(1::real) \<le> of_int (ky - kx)" by (simp only: of_int_1_le_iff)
  then have "1 * g \<le> of_int (ky - kx) * g"
    using g by (intro mult_right_mono) simp_all
  also have "\<dots> = y - x" by (simp add: k algebra_simps)
  finally have "g \<le> y - x" by simp
  then have d: "2 powi (- 1074) \<le> y - x" by (simp only: g_def)
  show ?thesis
  proof (cases "overflow_bound \<le> y - x")
    case True
    then show ?thesis using \<open>x < y\<close> by (simp add: fl_overflow)
  next
    case False
    with \<open>x < y\<close> overflow_bound_pos have "fl (y - x) = Num (round_double (y - x))"
      by (intro fl_finite) simp
    with round_double_pos [OF d] \<open>x < y\<close> show ?thesis by simp
  qed
next
  case False
  then have le: "y - x \<le> 0" by simp
  show ?thesis
  proof (cases "y - x \<le> - overflow_bound")
    case True
    with overflow_bound_pos have "fl (y - x) = NegInfinity" by (simp add: fl_def)
    with False show ?thesis by simp
  next
    case False
    with le overflow_bound_pos have "fl (y - x) = Num (round_double (y - x))"
      by (intro fl_finite) simp
    with round_double_nonpos [OF le] \<open>\<not> x < y\<close> show ?thesis by simp
  qed
qed

lemma comparator_positive_iff:
  assumes "representable a" "representable b" "a \<noteq> NaN" "b \<noteq> NaN"
  shows "is_positive (js_sub b a) \<longleftrightarrow> \<not> js_geq a b"
  using assms by (cases a; cases b) (auto simp: fl_positive_iff)

lemma js_geq_total: "a \<noteq> NaN \<Longrightarrow> b \<noteq> NaN \<Longrightarrow> js_geq a b \<or> js_geq b a"
  by (cases a; cases b) auto

lemma js_geq_trans: "js_geq a b \<Longrightarrow> js_geq b c \<Longrightarrow> js_geq a c"
  by (cases a; cases b; cases c) auto

subsection \<open>The sort\<close>

lemma mset_js_insort: "mset (js_insort cmp x xs) = add_mset x (mset xs)"
  by (induction xs) simp_all

lemma mset_js_sort: "mset (js_sort cmp xs) = mset xs"
  by (induction xs) (simp_all add: js_sort_def mset_js_insort)

lemma set_js_insort: "set (js_insort cmp x xs) = insert x (set xs)"
  using mset_js_insort [of cmp x xs, THEN arg_cong, of set_mset] by simp

lemma set_js_sort: "set (js_sort cmp xs) = set xs"
  using mset_js_sort [of cmp xs, THEN arg_cong, of set_mset] by simp

lemma length_js_sort: "length (js_sort cmp xs) = length xs"
  using mset_js_sort [of cmp xs, THEN arg_cong, of size] by simp

lemma js_insort_descending:
  assumes "sorted_wrt (\<lambda>p q. js_geq (snd p) (snd q)) xs"
    and "\<forall>p \<in> set (x # xs). representable (snd p) \<and> snd p \<noteq> NaN"
  shows "sorted_wrt (\<lambda>p q. js_geq (snd p) (snd q))
           (js_insort (\<lambda>a b. js_sub (snd b) (snd a)) x xs)"
  using assms
proof (induction xs)
  case Nil
  then show ?case by simp
next
  case (Cons y ys)
  from Cons.prems(2) have gx: "representable (snd x)" "snd x \<noteq> NaN"
    and gy: "representable (snd y)" "snd y \<noteq> NaN" by simp_all
  note c = comparator_positive_iff [OF gx(1) gy(1) gx(2) gy(2)]
  show ?case
  proof (cases "js_geq (snd x) (snd y)")
    case True
    have "\<forall>z \<in> set ys. js_geq (snd x) (snd z)"
      using Cons.prems(1) True by (auto intro: js_geq_trans)
    with True Cons.prems(1) c show ?thesis by simp
  next
    case False
    with js_geq_total [OF gx(2) gy(2)] have yx: "js_geq (snd y) (snd x)" by blast
    have "sorted_wrt (\<lambda>p q. js_geq (snd p) (snd q))
            (js_insort (\<lambda>a b. js_sub (snd b) (snd a)) x ys)"
      using Cons by simp
    with False yx Cons.prems(1) c show ?thesis
      by (auto simp: set_js_insort)
  qed
qed

lemma js_sort_descending:
  assumes "\<forall>p \<in> set xs. representable (snd p) \<and> snd p \<noteq> NaN"
  shows "sorted_wrt (\<lambda>p q. js_geq (snd p) (snd q))
           (js_sort (\<lambda>a b. js_sub (snd b) (snd a)) xs)"
  using assms
proof (induction xs)
  case Nil
  then show ?case by (simp add: js_sort_def)
next
  case (Cons x xs)
  then have s: "sorted_wrt (\<lambda>p q. js_geq (snd p) (snd q))
      (js_sort (\<lambda>a b. js_sub (snd b) (snd a)) xs)"
    by simp
  have "\<forall>p \<in> set (x # js_sort (\<lambda>a b. js_sub (snd b) (snd a)) xs).
          representable (snd p) \<and> snd p \<noteq> NaN"
    using Cons.prems by (simp add: set_js_sort)
  from js_insort_descending [OF s this] show ?case by (simp add: js_sort_def)
qed

lemma js_slice_from_start: "js_slice 0 k xs = take (slice_index (length xs) k) xs"
  by (simp add: js_slice_def slice_index_def)

lemma js_slice_nonneg: "0 \<le> k \<Longrightarrow> js_slice 0 k xs = take (nat k) xs"
  by (simp add: js_slice_from_start slice_index_def min_def)

lemma queryDocuments_empty:
  "store storeId = None \<or> store storeId = Some [] \<Longrightarrow>
     queryDocuments w store storeId query topK = Inr []"
  by (auto simp: queryDocuments_def)

lemma queryDocuments_ranked:
  assumes "store storeId = Some chunks" "chunks \<noteq> []"
    and "generateEmbeddings w DEFAULT_CONFIG [query] = Inr (Some queryEmbedding # rest)"
  shows "queryDocuments w store storeId query topK
       = Inr (map to_result (js_slice 0 topK
           (js_sort (\<lambda>a b. js_sub (snd b) (snd a)) (map (score_chunk queryEmbedding) chunks))))"
  using assms by (simp add: queryDocuments_def js_nth_def)

lemma score_chunk_representable: "representable (snd (score_chunk queryEmbedding chunk))"
  by (simp add: score_chunk_def representable_cosineSimilarity)

text \<open>
  Claim C1 says that every result of \<open>queryDocuments\<close> has a score that is at least the configured
  minimum score.  \<open>queryDocuments\<close> has no such filter: it scores every chunk of the store, sorts,
  and cuts at \<open>topK\<close>; the threshold \<open>minScore\<close> of the configuration is read by
  \<open>RAGService.searchChunks\<close> only.  What holds is this.  On an absent or empty store the result
  is empty.  On a store with chunks, when the embedding service returns a vector for the query,
  the result is \<open>ranked.slice(0, topK)\<close>, each entry turned into the content of its chunk, the
  URL of the chunk's document and the score, where \<open>ranked\<close> is a rearrangement of all the
  chunks of the store, each with the cosine similarity of the query's embedding and its own.
  For \<open>topK \<ge> 0\<close> these are the first \<open>topK\<close> entries of \<open>ranked\<close>, so there are exactly
  \<open>min topK n\<close> results for a store of \<open>n\<close> chunks, whatever their scores.  When no score is
  \<open>NaN\<close>, \<open>ranked\<close> is in descending order of score, so the results are the \<open>topK\<close> best-scoring
  chunks in descending order.
\<close>

theorem queryDocuments_top_k_ranked:
  "(store storeId = None \<or> store storeId = Some [] \<longrightarrow>
      queryDocuments w store storeId query topK = Inr [])
   \<and> (store storeId = Some chunks \<and> chunks \<noteq> []
        \<and> generateEmbeddings w DEFAULT_CONFIG [query] = Inr (Some queryEmbedding # rest) \<longrightarrow>
       (\<exists>ranked.
           queryDocuments w store storeId query topK = Inr (map to_result (js_slice 0 topK ranked))
         \<and> mset ranked = mset (map (score_chunk queryEmbedding) chunks)
         \<and> (0 \<le> topK \<longrightarrow>
              js_slice 0 topK ranked = take (nat topK) ranked
            \<and> length (js_slice 0 topK ranked) = min (nat topK) (length chunks))
         \<and> ((\<forall>chunk \<in> set chunks. snd (score_chunk queryEmbedding chunk) \<noteq> NaN) \<longrightarrow>
              sorted_wrt (\<lambda>p q. js_geq (snd p) (snd q)) ranked)))"
proof (intro conjI impI)
  assume "store storeId = None \<or> store storeId = Some []"
  then show "queryDocuments w store storeId query topK = Inr []"
    by (rule queryDocuments_empty)
next
  assume h: "store storeId = Some chunks \<and> chunks \<noteq> []
        \<and> generateEmbeddings w DEFAULT_CONFIG [query] = Inr (Some queryEmbedding # rest)"
  let ?scored = "map (score_chunk queryEmbedding) chunks"
  let ?ranked = "js_sort (\<lambda>a b. js_sub (snd b) (snd a)) ?scored"
  have r: "queryDocuments w store storeId query topK = Inr (map to_result (js_slice 0 topK ?ranked))"
    using h by (intro queryDocuments_ranked) simp_all
  have m: "mset ?ranked = mset ?scored" by (rule mset_js_sort)
  have c: "0 \<le> topK \<longrightarrow>
              js_slice 0 topK ?ranked = take (nat topK) ?ranked
            \<and> length (js_slice 0 topK ?ranked) = min (nat topK) (length chunks)"
    by (simp add: js_slice_nonneg length_js_sort min.commute)
  have s: "(\<forall>chunk \<in> set chunks. snd (score_chunk queryEmbedding chunk) \<noteq> NaN) \<longrightarrow>
              sorted_wrt (\<lambda>p q. js_geq (snd p) (snd q)) ?ranked"
  proof
    assume "\<forall>chunk \<in> set chunks. snd (score_chunk queryEmbedding chunk) \<noteq> NaN"
    then have "\<forall>p \<in> set ?scored. representable (snd p) \<and> snd p \<noteq> NaN"
      by (simp add: score_chunk_representable)
    then show "sorted_wrt (\<lambda>p q. js_geq (snd p) (snd q)) ?ranked"
      by (rule js_sort_descending)
  qed
  from r m c s show "\<exists>ranked.
           queryDocuments w store storeId query topK = Inr (map to_result (js_slice 0 topK ranked))
         \<and> mset ranked = mset (map (score_chunk queryEmbedding) chunks)
         \<and> (0 \<le> topK \<longrightarrow>
              js_slice 0 topK ranked = take (nat topK) ranked
            \<and> length (js_slice 0 topK ranked) = min (nat topK) (length chunks))
         \<and> ((\<forall>chunk \<in> set chunks. snd (score_chunk queryEmbedding chunk) \<noteq> NaN) \<longrightarrow>
              sorted_wrt (\<lambda>p q. js_geq (snd p) (snd q)) ranked)"
    by blast
qed

lemma probe_embedding: "generateEmbeddings probe_world DEFAULT_CONFIG [''q''] = Inr [Some [1, 0]]"
  by (simp add: generateEmbeddings_def generateEmbeddings_requests_def probe_world_def
      quiet_world_def probe_vector_def)

lemma probe_query:
  "queryDocuments probe_world (Map.empty(''s'' \<mapsto> [example_chunk ''text'' (Some v)])) ''s'' ''q'' 5
     = Inr [\<lparr> qr_content = ''text'', qr_source = ''a'', qr_score = cosineSimilarity [1, 0] v \<rparr>]"
  by (simp add: queryDocuments_def probe_embedding js_nth_def example_chunk_def
      js_sort_def js_slice_def slice_index_def to_result_def score_chunk_def)

lemma cosine_orthogonal: "cosineSimilarity [1, 0] [0, 1] = Num 0"
  by (simp add: cosineSimilarity_def fl_0 fl_1)

lemma cosine_parallel: "cosineSimilarity [1, 0] [1, 0] = Num 1"
  by (simp add: cosineSimilarity_def fl_0 fl_1)

theorem queryDocuments_top_k_ranked_witness:
  "(Map.empty(''s'' \<mapsto> [example_chunk ''text'' (Some [1, 0])])) ''s''
     = Some [example_chunk ''text'' (Some [1, 0])]
   \<and> generateEmbeddings probe_world DEFAULT_CONFIG [''q''] = Inr [Some [1, 0]]
   \<and> queryDocuments probe_world (Map.empty(''s'' \<mapsto> [example_chunk ''text'' (Some [1, 0])])) ''s'' ''q'' 5
     = Inr [\<lparr> qr_content = ''text'', qr_source = ''a'', qr_score = Num 1 \<rparr>]
   \<and> queryDocuments probe_world Map.empty ''s'' ''q'' 5 = Inr []"
  using queryDocuments_top_k_ranked
    [of "Map.empty(''s'' \<mapsto> [example_chunk ''text'' (Some [1, 0])])" "''s''" probe_world "''q''" 5
        "[example_chunk ''text'' (Some [1, 0])]" "[1, 0]" "[]"]
    queryDocuments_top_k_ranked [of Map.empty "''s''" probe_world "''q''" 5]
  by (simp add: probe_query cosine_parallel probe_embedding)

lemma steep_embedding: "generateEmbeddings steep_world DEFAULT_CONFIG [''q''] = Inr [Some [2 ^ 500]]"
  by (simp add: generateEmbeddings_def generateEmbeddings_requests_def steep_world_def
      quiet_world_def)

lemmas steep_values =
  fl_0 fl_1 fl_minus_1 fl_pow2 [of 500, simplified] fl_pow2 [of 1000, simplified]
  sqrt_even_pow2 [of 1000, simplified]

lemma steep_neg: "cosineSimilarity [2 ^ 500] [- 1] = Num (- 1)"
  by (simp add: cosineSimilarity_def steep_values)

lemma steep_pos: "cosineSimilarity [2 ^ 500] [1] = Num 1"
  by (simp add: cosineSimilarity_def steep_values)

lemma steep_nan: "cosineSimilarity [2 ^ 500] [2 ^ 600] = NaN"
proof -
  have "fl (2 ^ 500 * 2 ^ 600) = PosInfinity" "fl (2 ^ 600 * 2 ^ 600) = PosInfinity"
    by (rule fl_overflow, simp add: overflow_bound_def)+
  then show ?thesis by (simp add: cosineSimilarity_def steep_values)
qed

text \<open>The counterexamples to C1 as stated.  A result with score 0, below the configured minimum
  score 0.5.  With \<open>topK = -1\<close>, \<open>slice(0, -1)\<close> drops the last entry only: one result from a
  store of two chunks.  In \<open>steep_world\<close> the score of the second chunk is \<open>NaN\<close>, every
  comparison with it counts as 0, and the results are in the order of the store: the score
  \<open>-1\<close> before the score \<open>1\<close>.\<close>

theorem queryDocuments_counterexample:
  "queryDocuments probe_world (Map.empty(''s'' \<mapsto> [example_chunk ''text'' (Some [0, 1])])) ''s'' ''q'' 5
     = Inr [\<lparr> qr_content = ''text'', qr_source = ''a'', qr_score = Num 0 \<rparr>]
   \<and> \<not> js_ge (Num 0) (cfg_minScore DEFAULT_CONFIG)
   \<and> queryDocuments probe_world
       (Map.empty(''s'' \<mapsto> [example_chunk ''first'' (Some [1, 0]), example_chunk ''second'' (Some [0, 1])]))
       ''s'' ''q'' (- 1)
     = Inr [\<lparr> qr_content = ''first'', qr_source = ''a'', qr_score = Num 1 \<rparr>]
   \<and> queryDocuments steep_world
       (Map.empty(''s'' \<mapsto> [example_chunk ''x'' (Some [- 1]), example_chunk ''y'' (Some [2 ^ 600]),
                              example_chunk ''z'' (Some [1])]))
       ''s'' ''q'' 5
     = Inr [\<lparr> qr_content = ''x'', qr_source = ''a'', qr_score = Num (- 1) \<rparr>,
            \<lparr> qr_content = ''y'', qr_source = ''a'', qr_score = NaN \<rparr>,
            \<lparr> qr_content = ''z'', qr_source = ''a'', qr_score = Num 1 \<rparr>]"
proof (intro conjI)
  show "queryDocuments probe_world (Map.empty(''s'' \<mapsto> [example_chunk ''text'' (Some [0, 1])])) ''s'' ''q'' 5
     = Inr [\<lparr> qr_content = ''text'', qr_source = ''a'', qr_score = Num 0 \<rparr>]"
    by (simp add: probe_query cosine_orthogonal)
  show "\<not> js_ge (Num 0) (cfg_minScore DEFAULT_CONFIG)"
    by (simp add: DEFAULT_CONFIG_def)
  show "queryDocuments probe_world
       (Map.empty(''s'' \<mapsto> [example_chunk ''first'' (Some [1, 0]), example_chunk ''second'' (Some [0, 1])]))
       ''s'' ''q'' (- 1)
     = Inr [\<lparr> qr_content = ''first'', qr_source = ''a'', qr_score = Num 1 \<rparr>]"
    by (simp add: queryDocuments_def probe_embedding js_nth_def example_chunk_def
        score_chunk_def cosine_parallel cosine_orthogonal js_sort_def fl_minus_1
        js_slice_def slice_index_def to_result_def)
  show "queryDocuments steep_world
       (Map.empty(''s'' \<mapsto> [example_chunk ''x'' (Some [- 1]), example_chunk ''y'' (Some [2 ^ 600]),
                              example_chunk ''z'' (Some [1])]))
       ''s'' ''q'' 5
     = Inr [\<lparr> qr_content = ''x'', qr_source = ''a'', qr_score = Num (- 1) \<rparr>,
            \<lparr> qr_content = ''y'', qr_source = ''a'', qr_score = NaN \<rparr>,
            \<lparr> qr_content = ''z'', qr_source = ''a'', qr_score = Num 1 \<rparr>]"
    using steep_neg steep_nan steep_pos steep_embedding
    by (simp add: queryDocuments_def js_nth_def example_chunk_def
        score_chunk_def js_sort_def js_slice_def slice_index_def to_result_def)
qed

text \<open>
  Claim C2 says that the retriever embeds the query in the retrieval-query mode.
  \<open>queryDocuments\<close> calls \<open>generateEmbeddings\<close>, the function that indexes the chunks, and every
  request of that function has task type \<open>RETRIEVAL_DOCUMENT\<close>; \<open>generateQueryEmbedding\<close>, which
  sends \<open>RETRIEVAL_QUERY\<close> and which \<open>queryWithCustomRAG\<close> uses, is never called by the crawler.
  In \<open>probe_world\<close> the two modes give orthogonal vectors: the score 1 of a chunk indexed as
  \<open>(1, 0)\<close> shows that the query was embedded as a document, and the query mode, used by
  \<open>queryWithCustomRAG\<close> on the same chunk, finds nothing.
\<close>

theorem queryDocuments_embeds_query_in_document_mode:
  "map er_taskType (generateEmbeddings_requests DEFAULT_CONFIG [query]) = [RETRIEVAL_DOCUMENT]
   \<and> generateEmbeddings probe_world DEFAULT_CONFIG [''q''] = Inr [Some [1, 0]]
   \<and> generateQueryEmbedding probe_world DEFAULT_CONFIG ''q'' = Inr [0, 1]
   \<and> queryDocuments probe_world (Map.empty(''s'' \<mapsto> [example_chunk ''text'' (Some [1, 0])])) ''s'' ''q'' 5
       = Inr [\<lparr> qr_content = ''text'', qr_source = ''a'', qr_score = Num 1 \<rparr>]
   \<and> queryWithCustomRAG_sources probe_world DEFAULT_CONFIG ''q''
         [\<lparr> rc_id = ''d_chunk_0'', rc_documentId = ''d'', rc_content = ''text'',
            rc_embedding = Some [1, 0], rc_metadata = Map.empty \<rparr>] = Inr []"
proof (intro conjI)
  show "map er_taskType (generateEmbeddings_requests DEFAULT_CONFIG [query]) = [RETRIEVAL_DOCUMENT]"
    by (simp add: generateEmbeddings_requests_def)
  show "generateEmbeddings probe_world DEFAULT_CONFIG [''q''] = Inr [Some [1, 0]]"
    by (rule probe_embedding)
  show "generateQueryEmbedding probe_world DEFAULT_CONFIG ''q'' = Inr [0, 1]"
    by (simp add: generateQueryEmbedding_def probe_world_def quiet_world_def probe_vector_def)
  show "queryDocuments probe_world (Map.empty(''s'' \<mapsto> [example_chunk ''text'' (Some [1, 0])])) ''s'' ''q'' 5
       = Inr [\<lparr> qr_content = ''text'', qr_source = ''a'', qr_score = Num 1 \<rparr>]"
    by (simp add: probe_query cosine_parallel)
  show "queryWithCustomRAG_sources probe_world DEFAULT_CONFIG ''q''
         [\<lparr> rc_id = ''d_chunk_0'', rc_documentId = ''d'', rc_content = ''text'',
            rc_embedding = Some [1, 0], rc_metadata = Map.empty \<rparr>] = Inr []"
    by (simp add: queryWithCustomRAG_sources_def generateQueryEmbedding_def probe_world_def
        quiet_world_def probe_vector_def searchChunks_def RAG_cosineSimilarity_def fl_0 fl_1
        DEFAULT_CONFIG_def js_sort_def js_slice_def slice_index_def)
qed

section \<open>Properties of the chunker\<close>

lemma new_chunk_key:
  "cd_url d1 = cd_url d2 \<Longrightarrow> chunk_key (new_chunk d1 cur i) = chunk_key (new_chunk d2 cur i)"
  by (simp add: chunk_key_def new_chunk_def)

lemma chunk_paragraphs_push:
  assumes "1000 < length cur + length para \<and> 0 < length cur"
  shows "chunk_paragraphs d (para # ps) cur i cs
       = chunk_paragraphs d ps
           (join '' '' (js_slice_from (- 40) (js_split match_spaces cur)) @ [CHR 0x0A, CHR 0x0A] @ para)
           (i + 1) (cs @ [new_chunk d cur i])"
  using assms by simp

lemma chunk_paragraphs_append:
  assumes "\<not> (1000 < length cur + length para \<and> 0 < length cur)"
  shows "chunk_paragraphs d (para # ps) cur i cs
       = chunk_paragraphs d ps (cur @ (if cur \<noteq> [] then [CHR 0x0A, CHR 0x0A] else []) @ para) i cs"
  by (subst chunk_paragraphs.simps) (rule if_not_P [OF assms])

lemma chunk_paragraphs_same:
  assumes "cd_url d1 = cd_url d2" "map chunk_key cs1 = map chunk_key cs2"
  shows "fst (chunk_paragraphs d1 ps cur i cs1) = fst (chunk_paragraphs d2 ps cur i cs2)
       \<and> fst (snd (chunk_paragraphs d1 ps cur i cs1)) = fst (snd (chunk_paragraphs d2 ps cur i cs2))
       \<and> map chunk_key (snd (snd (chunk_paragraphs d1 ps cur i cs1)))
           = map chunk_key (snd (snd (chunk_paragraphs d2 ps cur i cs2)))"
  using assms(2)
proof (induction ps arbitrary: cur i cs1 cs2)
  case Nil
  then show ?case by simp
next
  case (Cons para ps)
  show ?case
  proof (cases "1000 < length cur + length para \<and> 0 < length cur")
    case True
    have "map chunk_key (cs1 @ [new_chunk d1 cur i]) = map chunk_key (cs2 @ [new_chunk d2 cur i])"
      using Cons.prems new_chunk_key [OF assms(1)] by simp
    from Cons.IH [OF this] show ?thesis
      unfolding chunk_paragraphs_push [OF True] .
  next
    case False
    from Cons.IH [OF Cons.prems] show ?thesis
      unfolding chunk_paragraphs_append [OF False] .
  qed
qed

lemma chunkDocument_same:
  assumes "cd_url d1 = cd_url d2" "cd_content d1 = cd_content d2"
  shows "map chunk_key (chunkDocument d1) = map chunk_key (chunkDocument d2)"
proof -
  let ?ps = "js_split match_blank_lines (cd_content d2)"
  from chunk_paragraphs_same [OF assms(1), of "[]" "[]" ?ps "[]" 0]
  have s: "fst (chunk_paragraphs d1 ?ps [] 0 []) = fst (chunk_paragraphs d2 ?ps [] 0 [])"
    "fst (snd (chunk_paragraphs d1 ?ps [] 0 [])) = fst (snd (chunk_paragraphs d2 ?ps [] 0 []))"
    "map chunk_key (snd (snd (chunk_paragraphs d1 ?ps [] 0 [])))
       = map chunk_key (snd (snd (chunk_paragraphs d2 ?ps [] 0 [])))"
    by simp_all
  show ?thesis
    using s new_chunk_key [OF assms(1)]
    by (simp add: chunkDocument_def assms(2) case_prod_unfold)
qed

lemma labelled_snoc:
  "labelled doc chunks \<Longrightarrow> labelled doc (chunks @ [new_chunk doc cur (length chunks)])"
  by (simp add: labelled_def new_chunk_def)

lemma chunk_paragraphs_labelled:
  assumes "labelled doc chunks" "i = length chunks"
  shows "labelled doc (snd (snd (chunk_paragraphs doc ps cur i chunks)))
       \<and> fst (snd (chunk_paragraphs doc ps cur i chunks))
           = length (snd (snd (chunk_paragraphs doc ps cur i chunks)))"
  using assms
proof (induction ps arbitrary: cur i chunks)
  case Nil
  then show ?case by simp
next
  case (Cons para ps)
  show ?case
  proof (cases "1000 < length cur + length para \<and> 0 < length cur")
    case True
    have a: "labelled doc (chunks @ [new_chunk doc cur i])"
      using Cons.prems labelled_snoc by simp
    have b: "i + 1 = length (chunks @ [new_chunk doc cur i])"
      using Cons.prems(2) by simp
    from Cons.IH [OF a b] show ?thesis
      unfolding chunk_paragraphs_push [OF True] .
  next
    case False
    from Cons.IH [OF Cons.prems] show ?thesis
      unfolding chunk_paragraphs_append [OF False] .
  qed
qed

lemma chunkDocument_labelled: "labelled doc (chunkDocument doc)"
proof -
  let ?r = "chunk_paragraphs doc (js_split match_blank_lines (cd_content doc)) [] 0 []"
  have "labelled doc []" by (simp add: labelled_def)
  from chunk_paragraphs_labelled [OF this, of 0 "js_split match_blank_lines (cd_content doc)" "[]"]
  have l: "labelled doc (snd (snd ?r))" and n: "fst (snd ?r) = length (snd (snd ?r))"
    by simp_all
  from labelled_snoc [OF l, of "fst ?r"] n l show ?thesis
    by (simp add: chunkDocument_def case_prod_unfold)
qed

text \<open>
  Claim C5.  Two documents with the same URL and the same content, whatever their other
  fields, are chunked into lists that agree in ids, ordinals and texts; so chunking the same
  document twice does.  The chunk at position \<open>i\<close> has ordinal \<open>i\<close>, belongs to the document's
  URL, and its id is \<open>hashString\<close> of that URL, a hyphen and \<open>i\<close> in decimal.
\<close>

theorem chunkDocument_deterministic:
  "(cd_url d1 = cd_url d2 \<and> cd_content d1 = cd_content d2 \<longrightarrow>
      map chunk_key (chunkDocument d1) = map chunk_key (chunkDocument d2))
   \<and> (\<forall>i < length (chunkDocument doc).
        dc_chunkIndex (chunkDocument doc ! i) = i
      \<and> dc_documentUrl (chunkDocument doc ! i) = cd_url doc
      \<and> dc_id (chunkDocument doc ! i) = hashString (cd_url doc) @ ''-'' @ show_int (int i))"
proof (intro conjI impI allI)
  assume "cd_url d1 = cd_url d2 \<and> cd_content d1 = cd_content d2"
  then show "map chunk_key (chunkDocument d1) = map chunk_key (chunkDocument d2)"
    using chunkDocument_same by blast
next
  fix i assume i: "i < length (chunkDocument doc)"
  let ?cs = "chunkDocument doc"
  from chunkDocument_labelled [of doc]
  have "map (\<lambda>c. (dc_id c, dc_chunkIndex c, dc_documentUrl c)) ?cs ! i
      = map (\<lambda>i. (hashString (cd_url doc) @ ''-'' @ show_int (int i), i, cd_url doc)) [0 ..< length ?cs] ! i"
    by (simp only: labelled_def)
  with i have "(dc_id (?cs ! i), dc_chunkIndex (?cs ! i), dc_documentUrl (?cs ! i))
      = (hashString (cd_url doc) @ ''-'' @ show_int (int i), i, cd_url doc)"
    by simp
  then show "dc_chunkIndex (?cs ! i) = i" "dc_documentUrl (?cs ! i) = cd_url doc"
    "dc_id (?cs ! i) = hashString (cd_url doc) @ ''-'' @ show_int (int i)"
    by simp_all
qed


lemma hashString_a: "hashString ''a'' = ''2p''"
  by (simp add: hashString_def to_radix.simps [of 36] digit_char_def)

lemma show_int_0: "show_int 0 = ''0''"
  by (simp add: show_int_def to_radix.simps [of 10] digit_char_def)

lemma split_no_blank_line:
  "\<forall>c \<in> set s. c \<noteq> CHR 0x0A \<Longrightarrow> split_matches match_blank_lines cur s = [cur @ s]"
  by (induction s arbitrary: cur) (simp_all add: match_blank_lines_def)

lemma trim_replicate: "\<not> is_space c \<Longrightarrow> trim (replicate n c) = replicate n c"
  by (simp add: trim_def dropWhile_replicate)

lemma x_not_space: "\<not> is_space (CHR ''x'')"
  by (simp add: is_space_def)

lemma example_chunks:
  "map chunk_key (chunkDocument (example_document t)) = [(''2p-0'', 0, replicate 60 (CHR ''x''))]"
  by (simp add: chunkDocument_def example_document_def js_split_def split_no_blank_line
      trim_replicate x_not_space new_chunk_def chunk_key_def hashString_a show_int_0
      del: replicate_Suc replicate.simps)

theorem chunkDocument_deterministic_witness:
  "cd_url (example_document ''Monday'') = cd_url (example_document ''Tuesday'')
   \<and> cd_content (example_document ''Monday'') = cd_content (example_document ''Tuesday'')
   \<and> example_document ''Monday'' \<noteq> example_document ''Tuesday''
   \<and> map chunk_key (chunkDocument (example_document ''Monday''))
       = map chunk_key (chunkDocument (example_document ''Tuesday''))
   \<and> 0 < length (chunkDocument (example_document ''Monday''))
   \<and> dc_chunkIndex (chunkDocument (example_document ''Monday'') ! 0) = 0
   \<and> dc_id (chunkDocument (example_document ''Monday'') ! 0) = ''2p-0''"
proof -
  have "length (map chunk_key (chunkDocument (example_document ''Monday''))) = 1"
    by (simp only: example_chunks) simp
  then have l: "length (chunkDocument (example_document ''Monday'')) = 1" by simp
  have u: "cd_url (example_document ''Monday'') = ''a''"
    by (simp add: example_document_def)
  from chunkDocument_deterministic
    [of "example_document ''Monday''" "example_document ''Tuesday''" "example_document ''Monday''"]
  show ?thesis
    using l by (simp add: u show_int_0 hashString_a example_document_def)
qed

section \<open>Properties of ingestion and of the orchestrator\<close>

lemma findRelevantUrls_no_candidates:
  assumes "\<forall>q. w_searchForUrls w q = []"
  shows "findRelevantUrls w queries equipmentType = Inr []"
proof -
  from assms have c: "concat (map (w_searchForUrls w) queries) = []"
    by (induction queries) simp_all
  show ?thesis
    unfolding findRelevantUrls_def c by (simp add: js_sort_def js_slice_def)
qed

lemma ingestForEquipment_no_candidates:
  assumes "\<forall>q. w_searchForUrls w q = []"
  shows "ir_success (fst (ingestForEquipment w clock st query)) = False
       \<and> ir_documentsFound (fst (ingestForEquipment w clock st query)) = 0
       \<and> ir_documentsCrawled (fst (ingestForEquipment w clock st query)) = 0
       \<and> ir_chunksCreated (fst (ingestForEquipment w clock st query)) = 0
       \<and> ir_storeId (fst (ingestForEquipment w clock st query)) = None
       \<and> snd (ingestForEquipment w clock st query) = st"
proof (cases "generateSearchQueries query")
  case (Inl e)
  then show ?thesis by (simp add: ingestForEquipment_def failed_ingestion_def)
next
  case (Inr searchQueries)
  with findRelevantUrls_no_candidates [OF assms, of searchQueries "eq_type query"]
  show ?thesis by (simp add: ingestForEquipment_def)
qed

lemma ingest_phase_no_candidates:
  assumes "\<forall>q. w_searchForUrls w q = []"
  shows "currentStore (ingest_phase w clock1 clock2 st description equipment diagnosis) = None"
proof -
  have a: "ir_storeId (fst (ingestForEquipment w c s q)) = None" for c s q
    using ingestForEquipment_no_candidates [OF assms, of c s q] by simp
  show ?thesis
    using a [of clock1 st "crawlQuery_of description equipment"]
      a [of clock2 "snd (ingestForEquipment w clock1 st (crawlQuery_of description equipment))"
            "targeted_query (crawlQuery_of description equipment) diagnosis"]
    by (simp add: ingest_phase_def Let_def case_prod_unfold)
qed

lemma context_phase_without_store:
  "context_phase w search store None equipment diagnosis =
     (case searchTechnicalDocs search equipment diagnosis of
        Inl e \<Rightarrow> Inl e
      | Inr searchContext \<Rightarrow> Inr \<lparr> technicalContext = searchContext, webSearch = True \<rparr>)"
  by (simp add: context_phase_def or_empty_def split: sum.splits)

text \<open>
  Claim C7.  When the search finds no candidate URL for any query, every run of
  \<open>ingestForEquipment\<close> returns a result with \<open>success = false\<close>, the three counts 0 and no store
  id, and leaves the crawler as it was; and the request goes on to the web-search supplement:
  \<open>searchTechnicalDocs\<close> is called and its text is the whole technical context.  (The request
  then fails only if that call itself throws.)
\<close>

theorem no_candidates_web_search_fallback:
  assumes "\<forall>q. w_searchForUrls w q = []"
  shows "ir_success (fst (ingestForEquipment w clock st query)) = False
       \<and> ir_documentsFound (fst (ingestForEquipment w clock st query)) = 0
       \<and> ir_documentsCrawled (fst (ingestForEquipment w clock st query)) = 0
       \<and> ir_chunksCreated (fst (ingestForEquipment w clock st query)) = 0
       \<and> ir_storeId (fst (ingestForEquipment w clock st query)) = None
       \<and> snd (ingestForEquipment w clock st query) = st
       \<and> gather_context w search clock1 clock2 st description equipment (Inr diagnosis) =
           (case searchTechnicalDocs search equipment diagnosis of
              Inl e \<Rightarrow> Inl e
            | Inr searchContext \<Rightarrow> Inr \<lparr> technicalContext = searchContext, webSearch = True \<rparr>)"
proof -
  have "gather_context w search clock1 clock2 st description equipment (Inr diagnosis) =
           (case searchTechnicalDocs search equipment diagnosis of
              Inl e \<Rightarrow> Inl e
            | Inr searchContext \<Rightarrow> Inr \<lparr> technicalContext = searchContext, webSearch = True \<rparr>)"
    by (simp add: gather_context_def Let_def ingest_phase_no_candidates [OF assms]
        context_phase_without_store)
  with ingestForEquipment_no_candidates [OF assms, of clock st query] show ?thesis
    by (intro conjI) simp_all
qed

theorem no_candidates_web_search_fallback_witness:
  "(\<forall>q. w_searchForUrls quiet_world q = [])
   \<and> ir_success (fst (ingestForEquipment quiet_world example_clock empty_crawler
         (crawlQuery_of (Some ''clicking noise'') example_equipment))) = False
   \<and> ir_documentsCrawled (fst (ingestForEquipment quiet_world example_clock empty_crawler
         (crawlQuery_of (Some ''clicking noise'') example_equipment))) = 0
   \<and> gather_context quiet_world example_search example_clock example_clock empty_crawler
         (Some ''clicking noise'') example_equipment (Inr example_diagnosis)
       = Inr \<lparr> technicalContext = ''Replace the outer CV joint.'', webSearch = True \<rparr>"
proof -
  have h: "\<forall>q. w_searchForUrls quiet_world q = []"
    by (simp add: quiet_world_def)
  have s: "searchTechnicalDocs example_search example_equipment example_diagnosis
      = Inr ''Replace the outer CV joint.''"
    by (simp add: searchTechnicalDocs_def example_search_def or_empty_def)
  from no_candidates_web_search_fallback [OF h, of example_clock empty_crawler
      "crawlQuery_of (Some ''clicking noise'') example_equipment" example_search example_clock
      example_clock "Some ''clicking noise''" example_equipment example_diagnosis] h s
  show ?thesis by simp
qed




end
